theory Spec2Isabelle
  imports Main "HOL-Library.Word" "HOL-Library.Monad_Syntax"
begin

unbundle bit_operations_syntax

section \<open>Register I/O of the Maxim dual GMSL deserializer (maxim2c_i2c.c)\<close>

text \<open>
  The driver functions of \<^verbatim>\<open>maxim2c_i2c.c\<close> are embedded as HOL functions.
  \<^item> C integers of a fixed width are words; the return codes of the functions are
    small signed values and are kept as \<open>int\<close>. \<open>unsigned long\<close> and \<open>size_t\<close> have 64
    bits, as on the 64-bit ARM processors that the driver is for.
  \<^item> Those processors run the kernel little-endian. One function depends on the byte
    order of the processor, which is a parameter of it to show where.
  \<^item> The kernel facilities the file calls (the I2C core, the mux core, the managed
    allocator, the sleep, the link layer of the driver) are not part of the file: they
    are the fields of a record \<open>'w host\<close> of functions on a state \<open>'w\<close> of everything
    outside the driver. Every theorem holds for every such host.
  \<^item> A result is an \<open>option\<close>: \<open>None\<close> stands for a run in which the C code has no
    defined behaviour (a read outside an object, a read of a byte never written, a
    shift by the width of the type or more).
  \<^item> The log calls (\<open>dev_info\<close>, \<open>dev_err\<close>, \<open>dev_dbg\<close>) and the reference counts of
    device-tree nodes have no influence on any result and are left out.
\<close>

type_synonym u8 = "8 word"
type_synonym u16 = "16 word"
type_synonym u32 = "32 word"
type_synonym u64 = "64 word"

subsection \<open>Error numbers of the kernel\<close>

definition EIO :: int where "EIO = 5"
definition ENOMEM :: int where "ENOMEM = 12"
definition ENODEV :: int where "ENODEV = 19"
definition EINVAL :: int where "EINVAL = 22"

subsection \<open>The host\<close>

text \<open>
  \<^item> \<open>i2c_master_send w bytes\<close>: one write message with these bytes to the client;
    the result is the number of bytes sent or a negative error number.
  \<^item> \<open>i2c_transfer w addr n\<close>: the two messages of a register read, a write of
    \<open>addr\<close> and a read of \<open>n\<close> bytes; the result is the number of messages
    done or a negative error number, with the bytes read (byte \<open>k\<close> for \<open>k < n\<close>).
  \<^item> \<open>usleep_range w lo hi\<close>: a sleep of between \<open>lo\<close> and \<open>hi\<close> microseconds.
  \<^item> \<open>devm_kmemdup w size\<close>, \<open>devm_kcalloc w n\<close>: a managed allocation of \<open>size\<close>
    bytes, or of \<open>n\<close> zeroed entries; \<open>False\<close> when the pointer returned is \<open>NULL\<close>.
  \<^item> \<open>link_select_remote_control w arg\<close>: the function
    \<open>maxim2c_link_select_remote_control\<close> of the link layer, with the argument as the
    caller computes it.
  \<^item> \<open>i2c_check_functionality\<close>, \<open>i2c_mux_alloc\<close>, \<open>i2c_mux_add_adapter\<close>,
    \<open>i2c_mux_del_adapters\<close>: the mux core; a mux core handle is a number, and
    \<open>i2c_mux_add_adapter w muxc i\<close> adds the adapter of channel \<open>i\<close>.
  \<^item> \<open>of_find_i2c_mux w\<close>: the device-tree node found by
    \<open>of_find_node_by_name(dev->of_node, "i2c-mux")\<close>, as the list of its children, or
    \<open>None\<close> when there is no such node. A child has the value that
    \<open>of_property_read_u32(node, "reg", &id)\<close> stores (\<open>None\<close> when it stores nothing,
    the property being absent or too short) and the answer of \<open>of_device_is_available\<close>.
\<close>

record of_child =
  of_reg :: "u32 option"
  of_available :: bool

record 'w host =
  i2c_master_send :: "'w \<Rightarrow> u8 list \<Rightarrow> int \<times> 'w"
  i2c_transfer :: "'w \<Rightarrow> u8 list \<Rightarrow> nat \<Rightarrow> (int \<times> (nat \<Rightarrow> u8)) \<times> 'w"
  usleep_range :: "'w \<Rightarrow> nat \<Rightarrow> nat \<Rightarrow> 'w"
  devm_kmemdup :: "'w \<Rightarrow> nat \<Rightarrow> bool \<times> 'w"
  devm_kcalloc :: "'w \<Rightarrow> nat \<Rightarrow> bool \<times> 'w"
  link_select_remote_control :: "'w \<Rightarrow> u64 \<Rightarrow> int \<times> 'w"
  i2c_check_functionality :: "'w \<Rightarrow> bool"
  i2c_mux_alloc :: "'w \<Rightarrow> nat option \<times> 'w"
  i2c_mux_add_adapter :: "'w \<Rightarrow> nat \<Rightarrow> nat \<Rightarrow> int \<times> 'w"
  i2c_mux_del_adapters :: "'w \<Rightarrow> nat \<Rightarrow> 'w"
  of_find_i2c_mux :: "'w \<Rightarrow> of_child list option"

subsection \<open>Byte order\<close>

text \<open>
  \<open>cpu_to_be16 v\<close> and \<open>cpu_to_be32 v\<close> are the bytes in memory, lowest address
  first, of the big-endian object the kernel macro of that name makes of \<open>v\<close>;
  \<open>be32_to_cpu\<close> reads such an object back. These do not depend on the byte order of
  the processor. The bytes in memory of a plain \<open>u32\<close> do: \<open>cpu_bytes32\<close>.
\<close>

datatype byte_order = LittleEndian | BigEndian

definition cpu_to_be16 :: "u16 \<Rightarrow> u8 list" where
  "cpu_to_be16 v = [ucast (drop_bit 8 v), ucast v]"

definition cpu_to_be32 :: "u32 \<Rightarrow> u8 list" where
  "cpu_to_be32 v = [ucast (drop_bit 24 v), ucast (drop_bit 16 v), ucast (drop_bit 8 v), ucast v]"

definition be32_to_cpu :: "u8 list \<Rightarrow> u32" where
  "be32_to_cpu bs =
     push_bit 24 (ucast (bs ! 0)) OR push_bit 16 (ucast (bs ! 1)) OR
     push_bit 8 (ucast (bs ! 2)) OR ucast (bs ! 3)"

definition cpu_bytes32 :: "byte_order \<Rightarrow> u32 \<Rightarrow> u8 list" where
  "cpu_bytes32 e v = (case e of BigEndian \<Rightarrow> cpu_to_be32 v | LittleEndian \<Rightarrow> rev (cpu_to_be32 v))"

subsection \<open>maxim2c_i2c_write\<close>

text \<open>
  The loop \<open>while (val_i < 4) buf[buf_i++] = val_p[val_i++];\<close>. The buffer
  \<open>u8 buf[6]\<close> is a list of six cells, \<open>None\<close> for a cell never written. The loop
  starts at \<open>buf_i\<close> 1 or 2 and copies at most four bytes, so every store is to one of
  the six cells.
\<close>

function copy_val :: "u8 option list \<Rightarrow> nat \<Rightarrow> u8 list \<Rightarrow> nat \<Rightarrow> u8 option list" where
  "copy_val buf buf_i val_p val_i =
     (if val_i < 4 then copy_val (buf[buf_i := Some (val_p ! val_i)]) (Suc buf_i) val_p (Suc val_i)
      else buf)"
  by pat_completeness auto
termination
  by (relation "measure (\<lambda>(buf, buf_i, val_p, val_i). 4 - val_i)") auto

declare copy_val.simps [simp del]

text \<open>
  \<open>i2c_master_send\<close> is given the first \<open>val_len + reg_len\<close> bytes of the buffer. The
  comparison of its \<open>int\<close> result with that \<open>u32\<close> count is made on unsigned values, where
  a negative result is above every count.
\<close>

definition maxim2c_i2c_write :: "'w host \<Rightarrow> 'w \<Rightarrow> u16 \<Rightarrow> u16 \<Rightarrow> u32 \<Rightarrow> u32 \<Rightarrow> (int \<times> 'w) option" where
  "maxim2c_i2c_write h w reg_addr reg_len val_len reg_val =
     (if val_len > 4 then Some (- EINVAL, w)
      else
        let buf0 = replicate 6 None;
            (buf1, buf_i) =
              (if reg_len = 2
               then (buf0[0 := Some (ucast (drop_bit 8 reg_addr)), 1 := Some (ucast (reg_addr AND 0xff))], 2)
               else (buf0[0 := Some (ucast (reg_addr AND 0xff))], 1));
            val_p = cpu_to_be32 reg_val;
            val_i = 4 - unat val_len;
            buf2 = copy_val buf1 buf_i val_p val_i;
            count = unat val_len + unat reg_len
        in if count > 6 then None
           else case those (take count buf2) of
                  None \<Rightarrow> None
                | Some bytes \<Rightarrow>
                    (let (ret, w') = i2c_master_send h w bytes
                     in if ret \<noteq> int count then Some (- EIO, w') else Some (0, w')))"

subsection \<open>maxim2c_i2c_read\<close>

text \<open>
  The function either returns an error number and leaves \<open>*reg_val\<close> alone, or stores
  the value read and returns 0. The address message starts at \<open>&reg_be_p[2 - reg_len]\<close>,
  which is outside the two bytes of \<open>reg_addr_be\<close> when \<open>reg_len\<close> is above 2. The read
  message stores its \<open>val_len\<close> bytes at the end of \<open>data_be\<close>, which starts as 0. The
  transfer has succeeded when its result is the number of messages, 2.
\<close>

datatype read_result = ReadErr int | ReadOk u32

fun ret_of :: "read_result \<Rightarrow> int" where
  "ret_of (ReadErr e) = e"
| "ret_of (ReadOk v) = 0"

definition maxim2c_i2c_read :: "'w host \<Rightarrow> 'w \<Rightarrow> u16 \<Rightarrow> u16 \<Rightarrow> u32 \<Rightarrow> (read_result \<times> 'w) option" where
  "maxim2c_i2c_read h w reg_addr reg_len val_len =
     (if val_len > 4 \<or> val_len = 0 then Some (ReadErr (- EINVAL), w)
      else if unat reg_len > 2 then None
      else
        let reg_be_p = cpu_to_be16 reg_addr;
            ((ret, rd), w') = i2c_transfer h w (drop (2 - unat reg_len) reg_be_p) (unat val_len)
        in if ret \<noteq> 2 then Some (ReadErr (- EIO), w')
           else
             let data_be = map (\<lambda>k. if k < 4 - unat val_len then 0 else rd (k - (4 - unat val_len))) [0..<4]
             in Some (ReadOk (be32_to_cpu data_be), w'))"

subsection \<open>maxim2c_i2c_update\<close>

definition maxim2c_i2c_update :: "'w host \<Rightarrow> 'w \<Rightarrow> u16 \<Rightarrow> u16 \<Rightarrow> u32 \<Rightarrow> u32 \<Rightarrow> u32 \<Rightarrow> (int \<times> 'w) option" where
  "maxim2c_i2c_update h w reg_addr reg_len val_len val_mask reg_val =
     do {
       (r, w1) \<leftarrow> maxim2c_i2c_read h w reg_addr reg_len val_len;
       case r of
         ReadErr ret \<Rightarrow> Some (ret, w1)
       | ReadOk value \<Rightarrow>
           maxim2c_i2c_write h w1 reg_addr reg_len val_len
             ((value AND NOT val_mask) OR (reg_val AND val_mask))
     }"

subsection \<open>Constants of the header\<close>

text \<open>
  The constants that the file uses are defined in \<^verbatim>\<open>maxim2c_api.h\<close>, which is not among
  the sources at hand. They are parameters of the model, the fields of a record that the
  functions using them take: every theorem holds for every value of \<open>MAXIM2C_REG_NULL\<close>
  and of \<open>MAXIM2C_LINK_ID_MAX\<close> (a count of links), and the theorems on the 8-bit
  variants ask that \<open>MAXIM2C_I2C_REG_ADDR_16BITS\<close> is 2 bytes and
  \<open>MAXIM2C_I2C_REG_VALUE_08BITS\<close> is 1 byte, as their names state.
\<close>

record maxim2c_api =
  MAXIM2C_REG_NULL :: u16
  MAXIM2C_LINK_ID_MAX :: nat
  MAXIM2C_I2C_REG_ADDR_16BITS :: u16
  MAXIM2C_I2C_REG_VALUE_08BITS :: u32

subsection \<open>The 8-bit variants\<close>

definition maxim2c_i2c_write_reg :: "maxim2c_api \<Rightarrow> 'w host \<Rightarrow> 'w \<Rightarrow> u16 \<Rightarrow> u8 \<Rightarrow> (int \<times> 'w) option" where
  "maxim2c_i2c_write_reg c h w reg_addr reg_val =
     maxim2c_i2c_write h w reg_addr (MAXIM2C_I2C_REG_ADDR_16BITS c) (MAXIM2C_I2C_REG_VALUE_08BITS c)
       (ucast reg_val)"

text \<open>
  \<open>*reg_val = *value_be_p\<close> reads the byte at the lowest address of the local \<open>u32 value\<close>,
  which starts as 0: which byte of the value that is depends on the processor.
\<close>

definition maxim2c_i2c_read_reg ::
  "byte_order \<Rightarrow> maxim2c_api \<Rightarrow> 'w host \<Rightarrow> 'w \<Rightarrow> u16 \<Rightarrow> (int \<times> u8 \<times> 'w) option" where
  "maxim2c_i2c_read_reg e c h w reg_addr =
     do {
       (r, w1) \<leftarrow> maxim2c_i2c_read h w reg_addr
                    (MAXIM2C_I2C_REG_ADDR_16BITS c) (MAXIM2C_I2C_REG_VALUE_08BITS c);
       let value = (case r of ReadErr ret \<Rightarrow> 0 | ReadOk v \<Rightarrow> v);
       Some (ret_of r, cpu_bytes32 e value ! 0, w1)
     }"

definition maxim2c_i2c_update_reg ::
  "byte_order \<Rightarrow> maxim2c_api \<Rightarrow> 'w host \<Rightarrow> 'w \<Rightarrow> u16 \<Rightarrow> u8 \<Rightarrow> u8 \<Rightarrow> (int \<times> 'w) option" where
  "maxim2c_i2c_update_reg e c h w reg_addr val_mask reg_val =
     do {
       (ret, value, w1) \<leftarrow> maxim2c_i2c_read_reg e c h w reg_addr;
       if ret \<noteq> 0 then Some (ret, w1)
       else maxim2c_i2c_write_reg c h w1 reg_addr ((value AND NOT val_mask) OR (reg_val AND val_mask))
     }"

subsection \<open>Structures of the header\<close>

text \<open>
  The structures are declared in \<^verbatim>\<open>maxim2c_api.h\<close> too.
  \<^item> The fields of a register entry have the widths of the parameters of
    \<open>maxim2c_i2c_update\<close>, to which \<open>maxim2c_i2c_write_array\<close> hands them; the delay is
    one byte. The sizes of an init sequence are 32-bit values, as
    \<open>maxim2c_i2c_load_init_seq\<close> assigns them from \<open>u32\<close> variables; its fields
    \<open>reg_len\<close> and \<open>val_len\<close> are \<open>seq_reg_len\<close> and \<open>seq_val_len\<close> here.
  \<^item> \<open>mux_channel\<close> is compared with a \<open>u32\<close> channel and is a 32-bit value.
\<close>

record maxim2c_i2c_regval =
  reg_len :: u16
  reg_addr :: u16
  val_len :: u32
  reg_val :: u32
  val_mask :: u32
  delay :: u8

record maxim2c_i2c_init_seq =
  reg_init_seq :: "maxim2c_i2c_regval list option"
  reg_seq_size :: u32
  seq_item_size :: u32
  seq_reg_len :: u32
  seq_val_len :: u32

record maxim2c_i2c_mux =
  muxc :: "nat option"
  i2c_mux_mask :: u32
  mux_channel :: u32
  mux_disable :: bool

subsection \<open>maxim2c_i2c_write_array\<close>

text \<open>
  The loop \<open>for (i = 0; (ret == 0) && (regs[i].reg_addr != MAXIM2C_REG_NULL); i++)\<close>
  over the array \<open>regs\<close>. The entry \<open>regs[i]\<close> is read only when \<open>ret\<close> is 0; a read
  beyond the end of the array has no defined behaviour. The index is a natural number
  here: no array has the \<open>2^32\<close> entries at which the \<open>u32\<close> of the code wraps around.
  The delay of an entry is slept after its operation, whatever that returned.
\<close>

definition write_array_body :: "'w host \<Rightarrow> 'w \<Rightarrow> maxim2c_i2c_regval \<Rightarrow> (int \<times> 'w) option" where
  "write_array_body h w r =
     do {
       (ret, w1) \<leftarrow>
         (if val_mask r \<noteq> 0
          then maxim2c_i2c_update h w (reg_addr r) (reg_len r) (val_len r) (val_mask r) (reg_val r)
          else maxim2c_i2c_write h w (reg_addr r) (reg_len r) (val_len r) (reg_val r));
       Some (ret,
         if delay r \<noteq> 0 then usleep_range h w1 (unat (delay r) * 1000) (unat (delay r) * 1000 + 100)
         else w1)
     }"

function write_array_loop ::
  "maxim2c_api \<Rightarrow> 'w host \<Rightarrow> maxim2c_i2c_regval list \<Rightarrow> nat \<Rightarrow> int \<Rightarrow> 'w \<Rightarrow> (int \<times> 'w) option" where
  "write_array_loop c h regs i ret w =
     (if ret \<noteq> 0 then Some (ret, w)
      else if length regs \<le> i then None
      else if reg_addr (regs ! i) = MAXIM2C_REG_NULL c then Some (ret, w)
      else case write_array_body h w (regs ! i) of
             None \<Rightarrow> None
           | Some (ret', w') \<Rightarrow> write_array_loop c h regs (Suc i) ret' w')"
  by pat_completeness auto
termination
  by (relation "measure (\<lambda>(c, h, regs, i, ret, w). length regs - i)") auto

declare write_array_loop.simps [simp del]

definition maxim2c_i2c_write_array ::
  "maxim2c_api \<Rightarrow> 'w host \<Rightarrow> 'w \<Rightarrow> maxim2c_i2c_regval list \<Rightarrow> (int \<times> 'w) option" where
  "maxim2c_i2c_write_array c h w regs = write_array_loop c h regs 0 0 w"

subsection \<open>maxim2c_i2c_parse_init_seq\<close>

text \<open>
  \<open>d8\<close> is an index into the copy \<open>data_buf\<close>; \<open>*d8\<close> beyond its end has no defined
  behaviour. One statement \<open>x |= (*d8 << sh); d8 += 1;\<close>: the byte is shifted as a
  32-bit value and the result is cut to the width of \<open>x\<close>.
\<close>

definition deref :: "u8 list \<Rightarrow> nat \<Rightarrow> u8 option" where
  "deref data_buf d8 = (if d8 < length data_buf then Some (data_buf ! d8) else None)"

definition or_byte :: "u8 list \<Rightarrow> nat \<Rightarrow> 'a::len word \<times> nat \<Rightarrow> ('a word \<times> nat) option" where
  "or_byte data_buf sh = (\<lambda>(x, d8).
     do { b \<leftarrow> deref data_buf d8; Some (x OR ucast (push_bit sh (ucast b :: u32)), Suc d8) })"

text \<open>The \<open>switch\<close> on a length, whose cases 4, 3, 2 and 1 fall through; no other case.\<close>

definition switch_len :: "u8 list \<Rightarrow> u32 \<Rightarrow> 'a::len word \<times> nat \<Rightarrow> ('a word \<times> nat) option" where
  "switch_len data_buf len s =
     (if len = 4 then or_byte data_buf 24 s \<bind> or_byte data_buf 16 \<bind> or_byte data_buf 8 \<bind> or_byte data_buf 0
      else if len = 3 then or_byte data_buf 16 s \<bind> or_byte data_buf 8 \<bind> or_byte data_buf 0
      else if len = 2 then or_byte data_buf 8 s \<bind> or_byte data_buf 0
      else if len = 1 then or_byte data_buf 0 s
      else Some s)"

text \<open>The body of the \<open>for\<close> loop: the entry decoded at \<open>d8\<close>, and \<open>d8\<close> after it.\<close>

definition decode_entry :: "maxim2c_i2c_init_seq \<Rightarrow> u8 list \<Rightarrow> nat \<Rightarrow> (maxim2c_i2c_regval \<times> nat) option" where
  "decode_entry init_seq data_buf d8 =
     do {
       (ra, d8a) \<leftarrow> switch_len data_buf (seq_reg_len init_seq) (0, d8);
       (rv, d8b) \<leftarrow> switch_len data_buf (seq_val_len init_seq) (0, d8a);
       (vm, d8c) \<leftarrow> switch_len data_buf (seq_val_len init_seq) (0, d8b);
       dl \<leftarrow> deref data_buf d8c;
       Some (\<lparr>reg_len = ucast (seq_reg_len init_seq), reg_addr = ra,
              val_len = seq_val_len init_seq, reg_val = rv, val_mask = vm, delay = dl\<rparr>, Suc d8c)
     }"

text \<open>
  \<open>for (i = 0; i < init_seq->reg_seq_size - 1; i++)\<close>, with \<open>n\<close> the bound; the array
  \<open>seq\<close> is the one \<open>devm_kcalloc\<close> returned, and a store beyond its end has no defined
  behaviour.
\<close>

function decode_loop ::
  "maxim2c_i2c_init_seq \<Rightarrow> u8 list \<Rightarrow> nat \<Rightarrow> nat \<Rightarrow> nat \<Rightarrow> maxim2c_i2c_regval list \<Rightarrow> maxim2c_i2c_regval list option" where
  "decode_loop init_seq data_buf n i d8 seq =
     (if i < n then
        (if length seq \<le> i then None
         else case decode_entry init_seq data_buf d8 of
                None \<Rightarrow> None
              | Some (e, d8') \<Rightarrow> decode_loop init_seq data_buf n (Suc i) d8' (seq[i := e]))
      else Some seq)"
  by pat_completeness auto
termination
  by (relation "measure (\<lambda>(init_seq, data_buf, n, i, d8, seq). n - i)") auto

declare decode_loop.simps [simp del]

definition zero_regval :: maxim2c_i2c_regval where
  "zero_regval = \<lparr>reg_len = 0, reg_addr = 0, val_len = 0, reg_val = 0, val_mask = 0, delay = 0\<rparr>"

text \<open>
  \<open>seq_data\<close> and \<open>init_seq\<close> are pointers, \<open>None\<close> for \<open>NULL\<close>; \<open>data_len\<close> is the
  32 bits of the \<open>int\<close>. The remainder and the quotient of \<open>data_len\<close> by the unsigned
  \<open>seq_item_size\<close> are unsigned, and so is the arithmetic on the sizes, which wraps
  around. \<open>devm_kmemdup\<close> takes the length as a \<open>size_t\<close> of 64 bits and copies that many
  bytes of \<open>seq_data\<close>. The result is the value returned, the host and \<open>*init_seq\<close>.
\<close>

definition maxim2c_i2c_parse_init_seq ::
  "maxim2c_api \<Rightarrow> 'w host \<Rightarrow> 'w \<Rightarrow> u8 list option \<Rightarrow> u32 \<Rightarrow> maxim2c_i2c_init_seq option \<Rightarrow>
     (int \<times> 'w \<times> maxim2c_i2c_init_seq option) option" where
  "maxim2c_i2c_parse_init_seq c h w seq_data data_len init_seq =
     (case (seq_data, init_seq) of
        (Some data, Some s) \<Rightarrow>
          if seq_item_size s = 0 \<or> data_len = 0 \<or> seq_reg_len s = 0 \<or> seq_val_len s = 0
          then Some (- EINVAL, w, init_seq)
          else if data_len mod seq_item_size s \<noteq> 0 then Some (- EINVAL, w, init_seq)
          else if seq_item_size s \<noteq> seq_reg_len s + seq_val_len s * 2 + 1
          then Some (- EINVAL, w, init_seq)
          else
            let size = unat (scast data_len :: u64);
                (ok, w1) = devm_kmemdup h w size
            in if \<not> ok then Some (- ENOMEM, w1, init_seq)
               else if length data < size then None
               else
                 let data_buf = take size data;
                     s1 = s\<lparr>reg_seq_size := data_len div seq_item_size s + 1\<rparr>;
                     (ok', w2) = devm_kcalloc h w1 (unat (reg_seq_size s1))
                 in if \<not> ok' then Some (- ENOMEM, w2, Some (s1\<lparr>reg_init_seq := None\<rparr>))
                    else
                      do {
                        seq \<leftarrow> decode_loop s1 data_buf (unat (reg_seq_size s1 - 1)) 0 0
                                (replicate (unat (reg_seq_size s1)) zero_regval);
                        let k = unat (reg_seq_size s1 - 1);
                        if length seq \<le> k then None
                        else Some (0, w2, Some (s1\<lparr>reg_init_seq :=
                               Some (seq[k := (seq ! k)\<lparr>reg_len := ucast (seq_reg_len s1),
                                                        reg_addr := MAXIM2C_REG_NULL c\<rparr>])\<rparr>))
                      }
      | _ \<Rightarrow> Some (- EINVAL, w, init_seq))"

subsection \<open>The I2C mux\<close>

text \<open>
  \<open>BIT(nr)\<close> is \<open>1UL << nr\<close>, on an \<open>unsigned long\<close> of 64 bits; a shift by 64 or more
  has no defined behaviour. The link layer is taken not to touch the \<open>i2c_mux\<close> part of
  the driver state, which is the only part that this file reads or writes.
\<close>

definition BIT :: "nat \<Rightarrow> u64 option" where
  "BIT nr = (if nr < 64 then Some (push_bit nr 1) else None)"

definition maxim2c_i2c_mux_select ::
  "'w host \<Rightarrow> 'w \<Rightarrow> maxim2c_i2c_mux \<Rightarrow> u32 \<Rightarrow> (int \<times> 'w \<times> maxim2c_i2c_mux) option" where
  "maxim2c_i2c_mux_select h w m chan =
     (if mux_disable m then Some (0, w, m)
      else if mux_channel m = chan then Some (0, w, m)
      else
        let m' = m\<lparr>mux_channel := chan\<rparr>
        in do {
             b \<leftarrow> BIT (unat chan);
             let (ret, w') = link_select_remote_control h w b;
             if ret \<noteq> 0 then Some (ret, w', m') else Some (0, w', m')
           })"

definition maxim2c_i2c_mux_deselect ::
  "'w host \<Rightarrow> 'w \<Rightarrow> maxim2c_i2c_mux \<Rightarrow> u32 \<Rightarrow> int \<times> 'w \<times> maxim2c_i2c_mux" where
  "maxim2c_i2c_mux_deselect h w m chan =
     (if mux_disable m then (0, w, m)
      else
        let (ret, w') = link_select_remote_control h w 0
        in if ret \<noteq> 0 then (ret, w', m) else (0, w', m))"

definition maxim2c_i2c_mux_disable ::
  "'w host \<Rightarrow> 'w \<Rightarrow> maxim2c_i2c_mux \<Rightarrow> int \<times> 'w \<times> maxim2c_i2c_mux" where
  "maxim2c_i2c_mux_disable h w m =
     (let (ret, w') = link_select_remote_control h w 0xff
      in if ret \<noteq> 0 then (ret, w', m) else (0, w', m\<lparr>mux_disable := True\<rparr>))"

definition maxim2c_i2c_mux_enable ::
  "'w host \<Rightarrow> 'w \<Rightarrow> maxim2c_i2c_mux \<Rightarrow> u8 \<Rightarrow> int \<times> 'w \<times> maxim2c_i2c_mux" where
  "maxim2c_i2c_mux_enable h w m def_mask =
     (let (ret, w') = link_select_remote_control h w (ucast def_mask)
      in if ret \<noteq> 0 then (ret, w', m)
         else (0, w', m\<lparr>mux_disable := False, mux_channel := - 1\<rparr>))"

text \<open>
  \<open>for_each_child_of_node\<close> in \<open>maxim2c_i2c_mux_mask\<close>, with \<open>mux_mask\<close> for the local
  \<open>i2c_mux_mask\<close>: \<open>id\<close> starts as 0 and keeps that value when \<open>of_property_read_u32\<close>
  stores nothing.
\<close>

fun mux_mask_children :: "maxim2c_api \<Rightarrow> of_child list \<Rightarrow> u32 \<Rightarrow> u32 option" where
  "mux_mask_children c [] mux_mask = Some mux_mask"
| "mux_mask_children c (node # nodes) mux_mask =
     (let id = (case of_reg node of None \<Rightarrow> 0 | Some v \<Rightarrow> v)
      in if MAXIM2C_LINK_ID_MAX c \<le> unat id then mux_mask_children c nodes mux_mask
         else if \<not> of_available node then mux_mask_children c nodes mux_mask
         else do {
                b \<leftarrow> BIT (unat id);
                mux_mask_children c nodes (mux_mask OR ucast b)
              })"

text \<open>The function returns a \<open>u32\<close>: \<open>return -EINVAL\<close> converts the \<open>int\<close> to 32 bits.\<close>

definition maxim2c_i2c_mux_mask :: "maxim2c_api \<Rightarrow> 'w host \<Rightarrow> 'w \<Rightarrow> u32 option" where
  "maxim2c_i2c_mux_mask c h w =
     (case of_find_i2c_mux h w of
        None \<Rightarrow> Some (word_of_int (- EINVAL))
      | Some children \<Rightarrow> mux_mask_children c children 0)"

text \<open>The loop \<open>for (i = 0; i < MAXIM2C_LINK_ID_MAX; i++)\<close> of \<open>maxim2c_i2c_mux_init\<close>.\<close>

fun mux_add_adapters :: "'w host \<Rightarrow> nat \<Rightarrow> nat list \<Rightarrow> 'w \<Rightarrow> int \<times> 'w" where
  "mux_add_adapters h mc [] w = (0, w)"
| "mux_add_adapters h mc (i # is) w =
     (let (ret, w') = i2c_mux_add_adapter h w mc i
      in if ret \<noteq> 0 then (ret, i2c_mux_del_adapters h w' mc)
         else mux_add_adapters h mc is w')"

definition maxim2c_i2c_mux_init ::
  "maxim2c_api \<Rightarrow> 'w host \<Rightarrow> 'w \<Rightarrow> maxim2c_i2c_mux \<Rightarrow> (int \<times> 'w \<times> maxim2c_i2c_mux) option" where
  "maxim2c_i2c_mux_init c h w m =
     (if \<not> i2c_check_functionality h w then Some (- ENODEV, w, m)
      else
        let (mc, w1) = i2c_mux_alloc h w;
            m1 = m\<lparr>muxc := mc\<rparr>
        in case mc of
             None \<Rightarrow> Some (- ENOMEM, w1, m1)
           | Some k \<Rightarrow>
               (let (ret, w2) = mux_add_adapters h k [0..<MAXIM2C_LINK_ID_MAX c] w1
                in if ret \<noteq> 0 then Some (ret, w2, m1)
                   else do {
                          mux_mask \<leftarrow> maxim2c_i2c_mux_mask c h w2;
                          Some (0, w2, m1\<lparr>i2c_mux_mask := mux_mask\<rparr>)
                        }))"

definition maxim2c_i2c_mux_deinit ::
  "'w host \<Rightarrow> 'w \<Rightarrow> maxim2c_i2c_mux \<Rightarrow> int \<times> 'w \<times> maxim2c_i2c_mux" where
  "maxim2c_i2c_mux_deinit h w m =
     (let w' = (case muxc m of Some k \<Rightarrow> i2c_mux_del_adapters h w k | None \<Rightarrow> w)
      in (0, w', m\<lparr>i2c_mux_mask := 0, mux_disable := False, mux_channel := - 1\<rparr>))"

subsection \<open>A host that records what it is asked\<close>

text \<open>
  A host for running the functions on concrete inputs: its state is the list of the
  calls made so far, every call succeeds, and a register read delivers the bytes
  \<open>0xA0, 0xA1, ...\<close>. Its device tree is a parameter. \<open>recorder_nak\<close> is the same host
  with a device that acknowledges no write: \<open>i2c_master_send\<close> returns \<open>-EREMOTEIO\<close>.
\<close>

datatype call =
    Master_send "u8 list"
  | Transfer "u8 list" nat
  | Usleep_range nat nat
  | Kmemdup nat
  | Kcalloc nat
  | Link_select u64
  | Mux_alloc
  | Mux_add nat nat
  | Mux_del nat

definition recorder :: "of_child list option \<Rightarrow> call list host" where
  "recorder dt =
     \<lparr>i2c_master_send = (\<lambda>w bytes. (int (length bytes), w @ [Master_send bytes])),
      i2c_transfer = (\<lambda>w addr n. ((2, \<lambda>k. 0xA0 + of_nat k), w @ [Transfer addr n])),
      usleep_range = (\<lambda>w lo hi. w @ [Usleep_range lo hi]),
      devm_kmemdup = (\<lambda>w size. (True, w @ [Kmemdup size])),
      devm_kcalloc = (\<lambda>w n. (True, w @ [Kcalloc n])),
      link_select_remote_control = (\<lambda>w arg. (0, w @ [Link_select arg])),
      i2c_check_functionality = (\<lambda>w. True),
      i2c_mux_alloc = (\<lambda>w. (Some 0, w @ [Mux_alloc])),
      i2c_mux_add_adapter = (\<lambda>w mc i. (0, w @ [Mux_add mc i])),
      i2c_mux_del_adapters = (\<lambda>w mc. w @ [Mux_del mc]),
      of_find_i2c_mux = (\<lambda>w. dt)\<rparr>"

definition recorder_nak :: "of_child list option \<Rightarrow> call list host" where
  "recorder_nak dt = (recorder dt)\<lparr>i2c_master_send := (\<lambda>w bytes. (- 121, w @ [Master_send bytes]))\<rparr>"

text \<open>Values of the constants for such runs.\<close>

definition example_api :: maxim2c_api where
  "example_api =
     \<lparr>MAXIM2C_REG_NULL = 0xFFFF, MAXIM2C_LINK_ID_MAX = 2,
      MAXIM2C_I2C_REG_ADDR_16BITS = 2, MAXIM2C_I2C_REG_VALUE_08BITS = 1\<rparr>"

subsection \<open>The mask of the enabled mux channels, as described\<close>

text \<open>
  The description of \<open>maxim2c_i2c_mux_mask\<close>: the OR of \<open>BIT(id)\<close> over the children that
  are available and whose \<open>id\<close> is below \<open>MAXIM2C_LINK_ID_MAX\<close>, where \<open>id\<close> is what the
  \<open>reg\<close> property gives and 0 for a child without one.
\<close>

definition child_id :: "of_child \<Rightarrow> u32" where
  "child_id node = (case of_reg node of None \<Rightarrow> 0 | Some v \<Rightarrow> v)"

definition enabled_channels :: "maxim2c_api \<Rightarrow> of_child list \<Rightarrow> of_child list" where
  "enabled_channels c children =
     filter (\<lambda>node. of_available node \<and> unat (child_id node) < MAXIM2C_LINK_ID_MAX c) children"

definition or_of_bits :: "of_child list \<Rightarrow> u32" where
  "or_of_bits nodes = foldr (\<lambda>node acc. push_bit (unat (child_id node)) 1 OR acc) nodes 0"

subsection \<open>The register list, as described\<close>

text \<open>
  The description of \<open>maxim2c_i2c_write_array\<close>, on the entries before the terminator.
  The operation of an entry is \<open>maxim2c_i2c_update\<close> when its \<open>val_mask\<close> is not 0 and
  \<open>maxim2c_i2c_write\<close> when it is 0; its delay, when not 0, is a sleep of between
  \<open>delay\<close> milliseconds and 100 microseconds more. The entries are applied first to
  last, each by its operation and then its delay, and the first operation whose result
  is not 0 ends the run with that result.
\<close>

definition entry_operation :: "'w host \<Rightarrow> 'w \<Rightarrow> maxim2c_i2c_regval \<Rightarrow> (int \<times> 'w) option" where
  "entry_operation h w r =
     (if val_mask r = 0
      then maxim2c_i2c_write h w (reg_addr r) (reg_len r) (val_len r) (reg_val r)
      else maxim2c_i2c_update h w (reg_addr r) (reg_len r) (val_len r) (val_mask r) (reg_val r))"

definition entry_delay :: "'w host \<Rightarrow> 'w \<Rightarrow> maxim2c_i2c_regval \<Rightarrow> 'w" where
  "entry_delay h w r =
     (if delay r = 0 then w
      else usleep_range h w (1000 * unat (delay r)) (1000 * unat (delay r) + 100))"

fun apply_in_order :: "'w host \<Rightarrow> 'w \<Rightarrow> maxim2c_i2c_regval list \<Rightarrow> (int \<times> 'w) option" where
  "apply_in_order h w [] = Some (0, w)"
| "apply_in_order h w (r # rs) =
     (case entry_operation h w r of
        None \<Rightarrow> None
      | Some (ret, w') \<Rightarrow>
          if ret = 0 then apply_in_order h (entry_delay h w' r) rs
          else Some (ret, entry_delay h w' r))"

subsection \<open>The init sequence, as described\<close>

text \<open>
  The layout that the comment \<open>seq_item_size = reg_len + val_len * 2 + 1\<close> and the
  description of the decoder give: item \<open>i\<close> is the \<open>i\<close>-th run of \<open>seq_item_size\<close> bytes,
  and holds a big-endian address of \<open>reg_len\<close> bytes, a big-endian value and a big-endian
  mask of \<open>val_len\<close> bytes each, and a delay of one byte. \<open>be_value\<close> is the number that
  bytes spell, highest byte first. The address of an entry is a 16-bit field and keeps the
  low 16 bits of the number.
\<close>

definition be_value :: "u8 list \<Rightarrow> u32" where
  "be_value bytes = foldl (\<lambda>acc b. push_bit 8 acc OR ucast b) 0 bytes"

definition seq_item :: "maxim2c_i2c_init_seq \<Rightarrow> u8 list \<Rightarrow> nat \<Rightarrow> u8 list" where
  "seq_item s data i = take (unat (seq_item_size s)) (drop (i * unat (seq_item_size s)) data)"

definition described_entry :: "maxim2c_i2c_init_seq \<Rightarrow> u8 list \<Rightarrow> maxim2c_i2c_regval" where
  "described_entry s item =
     (let rl = unat (seq_reg_len s); vl = unat (seq_val_len s)
      in \<lparr>reg_len = ucast (seq_reg_len s),
          reg_addr = ucast (be_value (take rl item)),
          val_len = seq_val_len s,
          reg_val = be_value (take vl (drop rl item)),
          val_mask = be_value (take vl (drop (rl + vl) item)),
          delay = item ! (rl + vl + vl)\<rparr>)"

definition end_entry :: "maxim2c_api \<Rightarrow> maxim2c_i2c_init_seq \<Rightarrow> maxim2c_i2c_regval" where
  "end_entry c s = zero_regval\<lparr>reg_len := ucast (seq_reg_len s), reg_addr := MAXIM2C_REG_NULL c\<rparr>"

section \<open>Proofs\<close>

subsection \<open>Bytes and words\<close>

lemma unat_le4: "\<not> 4 < (x::u32) \<Longrightarrow> unat x \<le> 4"
  by (simp add: word_less_nat_alt not_less)

lemma ucast_low_byte: "(ucast (x AND 0xff :: u16) :: u8) = ucast x"
proof -
  have "(0xff :: u16) = mask 8" by (simp add: mask_eq_exp_minus_1)
  show ?thesis
    unfolding \<open>(0xff :: u16) = mask 8\<close> by (rule bit_word_eqI) (auto simp: bit_simps)
qed



lemma those_map_Some: "those (map Some xs) = Some xs"
  by (induction xs) simp_all

lemma those_append_Some: "those (map Some xs @ map Some ys) = Some (xs @ ys)"
  using those_map_Some [of "xs @ ys"] by simp

subsection \<open>The write buffer\<close>

lemma copy_val_take:
  "k \<le> 4 \<Longrightarrow> length p = 4 \<Longrightarrow> i + (4 - k) \<le> length b \<Longrightarrow>
   take (i + (4 - k)) (copy_val b i p k) = take i b @ map Some (drop k p)"
proof (induction b i p k rule: copy_val.induct)
  case (1 buf buf_i val_p val_i)
  show ?case
  proof (cases "val_i < 4")
    case True
    have lt: "buf_i < length buf" using "1.prems" True by simp
    have "take (Suc buf_i + (4 - Suc val_i))
            (copy_val (buf[buf_i := Some (val_p ! val_i)]) (Suc buf_i) val_p (Suc val_i))
          = take (Suc buf_i) (buf[buf_i := Some (val_p ! val_i)]) @ map Some (drop (Suc val_i) val_p)"
      using "1.prems" True by (intro "1.IH") simp_all
    moreover have "Suc buf_i + (4 - Suc val_i) = buf_i + (4 - val_i)" using True by simp
    moreover have "take (Suc buf_i) (buf[buf_i := Some (val_p ! val_i)]) = take buf_i buf @ [Some (val_p ! val_i)]"
      using lt by (simp add: take_Suc_conv_app_nth)
    moreover have "drop val_i val_p = val_p ! val_i # drop (Suc val_i) val_p"
      using True "1.prems" by (simp add: Cons_nth_drop_Suc)
    ultimately show ?thesis
      using True by (subst copy_val.simps) simp
  next
    case False
    with "1.prems" have "val_i = 4" by simp
    then show ?thesis using "1.prems" by (subst copy_val.simps) simp
  qed
qed

lemma write_16bit_address:
  assumes "\<not> 4 < vlen"
  shows "maxim2c_i2c_write h w addr 2 vlen val =
     (case i2c_master_send h w
             ([ucast (drop_bit 8 addr), ucast addr] @ drop (4 - unat vlen) (cpu_to_be32 val)) of
        (n, w') \<Rightarrow> Some (if n = int (unat vlen + 2) then 0 else - EIO, w'))"
proof -
  let ?b = "(replicate 6 None)[0 := Some (ucast (drop_bit 8 addr)), 1 := Some (ucast (addr AND 0xff))]"
  have v: "unat vlen \<le> 4" using assms by (rule unat_le4)
  have b: "take 2 ?b = map Some [ucast (drop_bit 8 addr), ucast addr :: u8]"
    by (simp add: eval_nat_numeral ucast_low_byte)
  have "take (2 + (4 - (4 - unat vlen))) (copy_val ?b 2 (cpu_to_be32 val) (4 - unat vlen))
        = take 2 ?b @ map Some (drop (4 - unat vlen) (cpu_to_be32 val))"
    using v by (intro copy_val_take) (simp_all add: cpu_to_be32_def)
  moreover have "2 + (4 - (4 - unat vlen)) = unat vlen + 2" using v by simp
  ultimately have "those (take (unat vlen + 2) (copy_val ?b 2 (cpu_to_be32 val) (4 - unat vlen)))
        = Some ([ucast (drop_bit 8 addr), ucast addr] @ drop (4 - unat vlen) (cpu_to_be32 val))"
    unfolding b by (simp only: those_append_Some)
  then show ?thesis
    using assms v by (simp add: maxim2c_i2c_write_def Let_def split: prod.splits)
qed

lemma write_8bit_address:
  assumes "\<not> 4 < vlen"
  shows "maxim2c_i2c_write h w addr 1 vlen val =
     (case i2c_master_send h w ([ucast addr] @ drop (4 - unat vlen) (cpu_to_be32 val)) of
        (n, w') \<Rightarrow> Some (if n = int (unat vlen + 1) then 0 else - EIO, w'))"
proof -
  let ?b = "(replicate 6 None)[0 := Some (ucast (addr AND 0xff))]"
  have v: "unat vlen \<le> 4" using assms by (rule unat_le4)
  have b: "take 1 ?b = map Some [ucast addr :: u8]"
    by (simp add: eval_nat_numeral ucast_low_byte)
  have "take (1 + (4 - (4 - unat vlen))) (copy_val ?b 1 (cpu_to_be32 val) (4 - unat vlen))
        = take 1 ?b @ map Some (drop (4 - unat vlen) (cpu_to_be32 val))"
    using v by (intro copy_val_take) (simp_all add: cpu_to_be32_def)
  moreover have "1 + (4 - (4 - unat vlen)) = unat vlen + 1" using v by simp
  ultimately have "those (take (unat vlen + 1) (copy_val ?b 1 (cpu_to_be32 val) (4 - unat vlen)))
        = Some ([ucast addr] @ drop (4 - unat vlen) (cpu_to_be32 val))"
    unfolding b by (simp only: those_append_Some)
  then show ?thesis
    using assms v by (simp add: maxim2c_i2c_write_def Let_def split: prod.splits)
qed


lemma write_EINVAL_only:
  "maxim2c_i2c_write h w addr rlen vlen val = Some (- EINVAL, w') \<Longrightarrow> 4 < vlen"
  by (auto simp: maxim2c_i2c_write_def Let_def EINVAL_def EIO_def
      split: if_splits option.splits prod.splits)

subsection \<open>The read messages\<close>

lemma read_buffer:
  "n \<le> 4 \<Longrightarrow>
   map (\<lambda>k. if k < 4 - n then 0 else rd (k - (4 - n))) [0..<4] = replicate (4 - n) (0::u8) @ map rd [0..<n]"
  by (rule nth_equalityI) (auto simp: nth_append)

lemma read_address_message:
  assumes "vlen \<noteq> 0" "\<not> 4 < vlen" "unat rlen \<le> 2"
  shows "maxim2c_i2c_read h w addr rlen vlen =
     (case i2c_transfer h w (drop (2 - unat rlen) [ucast (drop_bit 8 addr), ucast addr]) (unat vlen) of
        ((ret, rd), w') \<Rightarrow>
          Some (if ret \<noteq> 2 then ReadErr (- EIO)
                else ReadOk (be32_to_cpu (replicate (4 - unat vlen) 0 @ map rd [0..<unat vlen])), w'))"
  using assms unat_le4 [OF assms(2)]
  by (simp add: maxim2c_i2c_read_def cpu_to_be16_def read_buffer Let_def split: prod.splits)


text \<open>
  C2. Register addressing on the wire is big-endian. A write with a value of at most four
  bytes hands \<open>i2c_master_send\<close> the high byte and then the low byte of the address when
  \<open>reg_len\<close> is 2, and the low byte alone when it is 1, followed by the last \<open>val_len\<close>
  of the four bytes of the value, highest byte first. A read with \<open>reg_len\<close> of at most 2
  hands \<open>i2c_transfer\<close> the last \<open>reg_len\<close> of the two bytes of the address, high byte
  first, as its address message.
\<close>

theorem big_endian_on_the_wire:
  "vlen \<le> 4 \<Longrightarrow>
     maxim2c_i2c_write h w addr 2 vlen val =
       (case i2c_master_send h w
               (ucast (drop_bit 8 addr) # ucast addr #
                drop (4 - unat vlen)
                  [ucast (drop_bit 24 val), ucast (drop_bit 16 val), ucast (drop_bit 8 val), ucast val]) of
          (n, w') \<Rightarrow> Some (if n = int (unat vlen + 2) then 0 else - EIO, w')) \<and>
     maxim2c_i2c_write h w addr 1 vlen val =
       (case i2c_master_send h w
               (ucast addr #
                drop (4 - unat vlen)
                  [ucast (drop_bit 24 val), ucast (drop_bit 16 val), ucast (drop_bit 8 val), ucast val]) of
          (n, w') \<Rightarrow> Some (if n = int (unat vlen + 1) then 0 else - EIO, w')) \<and>
     (vlen \<noteq> 0 \<and> rlen \<le> 2 \<longrightarrow>
        maxim2c_i2c_read h w addr rlen vlen =
          (case i2c_transfer h w (drop (2 - unat rlen) [ucast (drop_bit 8 addr), ucast addr]) (unat vlen) of
             ((ret, rd), w') \<Rightarrow>
               Some (if ret \<noteq> 2 then ReadErr (- EIO)
                     else ReadOk (be32_to_cpu (replicate (4 - unat vlen) 0 @ map rd [0..<unat vlen])), w')))"
proof -
  assume "vlen \<le> 4"
  then have v: "\<not> 4 < vlen" by (simp add: not_less)
  have "rlen \<le> 2 \<Longrightarrow> unat rlen \<le> 2" by (simp add: word_le_nat_alt)
  then show ?thesis
    using write_16bit_address [OF v, of h w addr val] write_8bit_address [OF v, of h w addr val]
      read_address_message [OF _ v, of rlen h w addr]
    by (simp add: cpu_to_be32_def)
qed

theorem big_endian_on_the_wire_witness:
  "(1 :: u32) \<le> 4 \<and> (1 :: u32) \<noteq> 0 \<and> (2 :: u16) \<le> 2 \<and>
   maxim2c_i2c_write (recorder None) [] 0x1234 2 1 0xAABBCCDD = Some (0, [Master_send [0x12, 0x34, 0xDD]]) \<and>
   maxim2c_i2c_write (recorder None) [] 0x1234 1 1 0xAABBCCDD = Some (0, [Master_send [0x34, 0xDD]]) \<and>
   maxim2c_i2c_read (recorder None) [] 0x1234 2 1 = Some (ReadOk 0xA0, [Transfer [0x12, 0x34] 1])"
  using big_endian_on_the_wire [of 1 "recorder None" "[]" "0x1234" "0xAABBCCDD" 2]
  by (simp add: recorder_def be32_to_cpu_def numeral_3_eq_3)

text \<open>
  C8. The two functions check the width of the value differently. \<open>maxim2c_i2c_read\<close>
  returns \<open>-EINVAL\<close>, with nothing sent, for every \<open>val_len\<close> that is 0 or above 4.
  \<open>maxim2c_i2c_write\<close> returns \<open>-EINVAL\<close> for every \<open>val_len\<close> above 4 and for no
  other; with \<open>val_len\<close> 0 it sends the bytes of the address and nothing else.
\<close>

theorem val_len_checked_differently:
  "(vlen = 0 \<or> 4 < vlen \<longrightarrow> maxim2c_i2c_read h w addr rlen vlen = Some (ReadErr (- EINVAL), w)) \<and>
   (4 < vlen \<longrightarrow> maxim2c_i2c_write h w addr rlen vlen val = Some (- EINVAL, w)) \<and>
   (\<forall>w'. maxim2c_i2c_write h w addr rlen vlen val = Some (- EINVAL, w') \<longrightarrow> 4 < vlen) \<and>
   maxim2c_i2c_write h w addr 2 0 val =
     (case i2c_master_send h w [ucast (drop_bit 8 addr), ucast addr] of
        (n, w') \<Rightarrow> Some (if n = 2 then 0 else - EIO, w')) \<and>
   maxim2c_i2c_write h w addr 1 0 val =
     (case i2c_master_send h w [ucast addr] of
        (n, w') \<Rightarrow> Some (if n = 1 then 0 else - EIO, w'))"
proof (intro conjI allI impI)
  assume "vlen = 0 \<or> 4 < vlen"
  then show "maxim2c_i2c_read h w addr rlen vlen = Some (ReadErr (- EINVAL), w)"
    by (auto simp: maxim2c_i2c_read_def)
next
  assume "4 < vlen"
  then show "maxim2c_i2c_write h w addr rlen vlen val = Some (- EINVAL, w)"
    by (simp add: maxim2c_i2c_write_def)
next
  fix w' assume "maxim2c_i2c_write h w addr rlen vlen val = Some (- EINVAL, w')"
  then show "4 < vlen" by (rule write_EINVAL_only)
next
  show "maxim2c_i2c_write h w addr 2 0 val =
     (case i2c_master_send h w [ucast (drop_bit 8 addr), ucast addr] of
        (n, w') \<Rightarrow> Some (if n = 2 then 0 else - EIO, w'))"
    using write_16bit_address [of 0 h w addr val] by (simp add: cpu_to_be32_def)
next
  show "maxim2c_i2c_write h w addr 1 0 val =
     (case i2c_master_send h w [ucast addr] of
        (n, w') \<Rightarrow> Some (if n = 1 then 0 else - EIO, w'))"
    using write_8bit_address [of 0 h w addr val] by (simp add: cpu_to_be32_def)
qed

theorem val_len_checked_differently_witness:
  "maxim2c_i2c_read (recorder None) [] 0x1234 2 0 = Some (ReadErr (- 22), []) \<and>
   maxim2c_i2c_read (recorder None) [] 0x1234 2 5 = Some (ReadErr (- 22), []) \<and>
   maxim2c_i2c_write (recorder None) [] 0x1234 2 5 0xAABBCCDD = Some (- 22, []) \<and>
   maxim2c_i2c_write (recorder None) [] 0x1234 2 0 0xAABBCCDD = Some (0, [Master_send [0x12, 0x34]]) \<and>
   maxim2c_i2c_write (recorder None) [] 0x1234 1 0 0xAABBCCDD = Some (0, [Master_send [0x34]])"
  using val_len_checked_differently [of 0 "recorder None" "[]" "0x1234" 2 "0xAABBCCDD"]
    val_len_checked_differently [of 5 "recorder None" "[]" "0x1234" 2 "0xAABBCCDD"]
  by (simp add: recorder_def EINVAL_def)




text \<open>
  On a big-endian processor the byte at the lowest address of the value read is its
  highest byte, which is 0 after a read of one byte.
\<close>

lemma update_reg_BigEndian:
  "maxim2c_i2c_update_reg BigEndian example_api (recorder None) [] 0x1234 0x0F 0x55 =
     Some (0, [Transfer [0x12, 0x34] 1, Master_send [0x12, 0x34, 0x05]])"
  by code_simp

subsection \<open>The I2C mux\<close>

text \<open>
  C9. When the mux is disabled, the select and the deselect callbacks return 0, call
  nothing of the host and leave the mux state, \<open>mux_channel\<close> included, as it was.
\<close>

theorem disabled_mux_reports_success:
  "mux_disable m \<Longrightarrow>
     maxim2c_i2c_mux_select h w m chan = Some (0, w, m) \<and>
     maxim2c_i2c_mux_deselect h w m chan = (0, w, m)"
  by (simp add: maxim2c_i2c_mux_select_def maxim2c_i2c_mux_deselect_def)

theorem disabled_mux_reports_success_witness:
  "mux_disable \<lparr>muxc = Some 0, i2c_mux_mask = 3, mux_channel = 0, mux_disable = True\<rparr> \<and>
   maxim2c_i2c_mux_select (recorder None) []
       \<lparr>muxc = Some 0, i2c_mux_mask = 3, mux_channel = 0, mux_disable = True\<rparr> 1 =
     Some (0, [], \<lparr>muxc = Some 0, i2c_mux_mask = 3, mux_channel = 0, mux_disable = True\<rparr>) \<and>
   maxim2c_i2c_mux_deselect (recorder None) []
       \<lparr>muxc = Some 0, i2c_mux_mask = 3, mux_channel = 0, mux_disable = True\<rparr> 1 =
     (0, [], \<lparr>muxc = Some 0, i2c_mux_mask = 3, mux_channel = 0, mux_disable = True\<rparr>)"
  using disabled_mux_reports_success
    [of "\<lparr>muxc = Some 0, i2c_mux_mask = 3, mux_channel = 0, mux_disable = True\<rparr>" "recorder None" "[]" 1]
  by simp

text \<open>
  C7. A call of \<open>maxim2c_i2c_mux_enable\<close> that returns 0 leaves \<open>mux_disable\<close> false and
  \<open>mux_channel\<close> -1 and changes no other field; \<open>maxim2c_i2c_mux_deinit\<close> always returns 0
  and leaves \<open>i2c_mux_mask\<close> 0, \<open>mux_disable\<close> false and \<open>mux_channel\<close> -1.
\<close>

theorem mux_lifecycle_reset:
  "(maxim2c_i2c_mux_enable h w m def_mask = (0, w', m') \<longrightarrow>
      \<not> mux_disable m' \<and> mux_channel m' = - 1 \<and> mux_channel m' = 0xFFFFFFFF \<and>
      muxc m' = muxc m \<and> i2c_mux_mask m' = i2c_mux_mask m) \<and>
   (case maxim2c_i2c_mux_deinit h w m of
      (ret, w'', m'') \<Rightarrow>
        ret = 0 \<and> i2c_mux_mask m'' = 0 \<and> \<not> mux_disable m'' \<and> mux_channel m'' = - 1 \<and>
        mux_channel m'' = 0xFFFFFFFF \<and> muxc m'' = muxc m)"
  by (auto simp: maxim2c_i2c_mux_enable_def maxim2c_i2c_mux_deinit_def Let_def
      split: prod.splits if_splits)

theorem mux_lifecycle_reset_witness:
  "maxim2c_i2c_mux_enable (recorder None) []
       \<lparr>muxc = Some 0, i2c_mux_mask = 3, mux_channel = 1, mux_disable = True\<rparr> 3 =
     (0, [Link_select 3], \<lparr>muxc = Some 0, i2c_mux_mask = 3, mux_channel = 0xFFFFFFFF, mux_disable = False\<rparr>) \<and>
   \<not> mux_disable \<lparr>muxc = Some 0, i2c_mux_mask = 3, mux_channel = 0xFFFFFFFF, mux_disable = False\<rparr> \<and>
   mux_channel \<lparr>muxc = Some 0, i2c_mux_mask = 3, mux_channel = 0xFFFFFFFF, mux_disable = False\<rparr> = - 1 \<and>
   maxim2c_i2c_mux_deinit (recorder None) []
       \<lparr>muxc = Some 0, i2c_mux_mask = 3, mux_channel = 1, mux_disable = True\<rparr> =
     (0, [Mux_del 0], \<lparr>muxc = Some 0, i2c_mux_mask = 0, mux_channel = 0xFFFFFFFF, mux_disable = False\<rparr>)"
proof -
  have e: "maxim2c_i2c_mux_enable (recorder None) []
       \<lparr>muxc = Some 0, i2c_mux_mask = 3, mux_channel = 1, mux_disable = True\<rparr> 3 =
     (0, [Link_select 3], \<lparr>muxc = Some 0, i2c_mux_mask = 3, mux_channel = 0xFFFFFFFF, mux_disable = False\<rparr>)"
    by (simp add: maxim2c_i2c_mux_enable_def recorder_def)
  have d: "maxim2c_i2c_mux_deinit (recorder None) []
       \<lparr>muxc = Some 0, i2c_mux_mask = 3, mux_channel = 1, mux_disable = True\<rparr> =
     (0, [Mux_del 0], \<lparr>muxc = Some 0, i2c_mux_mask = 0, mux_channel = 0xFFFFFFFF, mux_disable = False\<rparr>)"
    by (simp add: maxim2c_i2c_mux_deinit_def recorder_def)
  from mux_lifecycle_reset [of "recorder None" "[]"
        "\<lparr>muxc = Some 0, i2c_mux_mask = 3, mux_channel = 1, mux_disable = True\<rparr>" 3
        "[Link_select 3]" "\<lparr>muxc = Some 0, i2c_mux_mask = 3, mux_channel = 0xFFFFFFFF, mux_disable = False\<rparr>"] e
  have "\<not> mux_disable \<lparr>muxc = Some 0, i2c_mux_mask = 3, mux_channel = 0xFFFFFFFF, mux_disable = False\<rparr> \<and>
   mux_channel \<lparr>muxc = Some 0, i2c_mux_mask = 3, mux_channel = 0xFFFFFFFF, mux_disable = False\<rparr> = - 1"
    by blast
  with e d show ?thesis by blast
qed

text \<open>
  C6, where it fails. The select callback remembers the channel: on an enabled mux whose
  \<open>mux_channel\<close> is 1, a select of channel 1 returns 0 and calls nothing of the host.
\<close>

theorem mux_select_skips_recorded_channel_counterexample:
  "\<not> mux_disable \<lparr>muxc = Some 0, i2c_mux_mask = 3, mux_channel = 1, mux_disable = False\<rparr> \<and>
   maxim2c_i2c_mux_select (recorder None) []
       \<lparr>muxc = Some 0, i2c_mux_mask = 3, mux_channel = 1, mux_disable = False\<rparr> 1 =
     Some (0, [], \<lparr>muxc = Some 0, i2c_mux_mask = 3, mux_channel = 1, mux_disable = False\<rparr>)"
  by (simp add: maxim2c_i2c_mux_select_def)

text \<open>
  C6, as the code has it. On an enabled mux, a call of the select callback for the channel
  recorded in \<open>mux_channel\<close> returns 0 and calls nothing; a call for any other channel
  (below 64, the width of \<open>BIT\<close>) records it and issues the remote control \<open>BIT(chan)\<close>,
  whose result it returns.
\<close>

theorem mux_select_issues_unless_recorded:
  "\<not> mux_disable m \<Longrightarrow> chan < 64 \<Longrightarrow>
     maxim2c_i2c_mux_select h w m chan =
       (if mux_channel m = chan then Some (0, w, m)
        else case link_select_remote_control h w (push_bit (unat chan) 1) of
               (ret, w') \<Rightarrow> Some (ret, w', m\<lparr>mux_channel := chan\<rparr>))"
  by (auto simp: maxim2c_i2c_mux_select_def BIT_def word_less_nat_alt Let_def split: prod.splits)

theorem mux_select_issues_unless_recorded_witness:
  "maxim2c_i2c_mux_select (recorder None) []
       \<lparr>muxc = Some 0, i2c_mux_mask = 3, mux_channel = 0, mux_disable = False\<rparr> 1 =
     Some (0, [Link_select 2], \<lparr>muxc = Some 0, i2c_mux_mask = 3, mux_channel = 1, mux_disable = False\<rparr>)"
  using mux_select_issues_unless_recorded
    [of "\<lparr>muxc = Some 0, i2c_mux_mask = 3, mux_channel = 0, mux_disable = False\<rparr>" 1 "recorder None" "[]"]
  by (simp add: recorder_def)

lemma ucast_BIT: "n < 32 \<Longrightarrow> (ucast (2 ^ n :: u64) :: u32) = 2 ^ n"
  by (rule bit_word_eqI) (auto simp: bit_simps)

lemma or_of_bits_Cons:
  "or_of_bits (node # nodes) = push_bit (unat (child_id node)) 1 OR or_of_bits nodes"
  by (simp add: or_of_bits_def)

lemma mux_mask_children_or:
  "MAXIM2C_LINK_ID_MAX c \<le> 32 \<Longrightarrow>
   mux_mask_children c children acc = Some (or_of_bits (enabled_channels c children) OR acc)"
proof (induction children arbitrary: acc)
  case Nil
  then show ?case by (simp add: or_of_bits_def enabled_channels_def)
next
  case (Cons node nodes)
  show ?case
  proof (cases "of_available node \<and> unat (child_id node) < MAXIM2C_LINK_ID_MAX c")
    case True
    then have lt: "unat (child_id node) < 32" using Cons.prems by simp
    have "mux_mask_children c (node # nodes) acc =
          mux_mask_children c nodes (acc OR push_bit (unat (child_id node)) 1)"
      using True lt by (simp add: child_id_def [symmetric] BIT_def ucast_BIT Let_def)
    also have "\<dots> = Some (or_of_bits (enabled_channels c nodes) OR (acc OR push_bit (unat (child_id node)) 1))"
      using Cons.prems by (rule Cons.IH)
    also have "enabled_channels c (node # nodes) = node # enabled_channels c nodes"
      using True by (simp add: enabled_channels_def)
    ultimately show ?thesis
      by (simp only: or_of_bits_Cons) (simp add: ac_simps)
  next
    case False
    then have "mux_mask_children c (node # nodes) acc = mux_mask_children c nodes acc"
      by (auto simp: child_id_def [symmetric] Let_def not_less)
    moreover have "enabled_channels c (node # nodes) = enabled_channels c nodes"
      using False by (auto simp: enabled_channels_def)
    ultimately show ?thesis
      using Cons.IH [OF Cons.prems, of acc] by simp
  qed
qed

text \<open>
  C10. \<open>maxim2c_i2c_mux_mask\<close> returns a \<open>u32\<close>: without an \<open>i2c-mux\<close> node its
  \<open>return -EINVAL\<close> is the value \<open>0xFFFFFFEA\<close>, and \<open>maxim2c_i2c_mux_init\<close>, once the mux
  core is allocated and its adapters are added, stores that value in \<open>i2c_mux_mask\<close> and
  returns 0. With the node, the result is the OR of \<open>BIT(id)\<close> over the available children
  whose \<open>id\<close> is below \<open>MAXIM2C_LINK_ID_MAX\<close> (at most 32, the width of the mask); \<open>id\<close> is
  the value of the \<open>reg\<close> property, and 0 for a child of which none can be read.
\<close>

theorem mux_mask_without_node_is_EINVAL:
  "(of_find_i2c_mux h w = None \<longrightarrow> maxim2c_i2c_mux_mask c h w = Some 0xFFFFFFEA) \<and>
   (i2c_check_functionality h w \<and> i2c_mux_alloc h w = (Some k, w1) \<and>
    mux_add_adapters h k [0..<MAXIM2C_LINK_ID_MAX c] w1 = (0, w2) \<and> of_find_i2c_mux h w2 = None \<longrightarrow>
      maxim2c_i2c_mux_init c h w m = Some (0, w2, m\<lparr>muxc := Some k, i2c_mux_mask := 0xFFFFFFEA\<rparr>)) \<and>
   (of_find_i2c_mux h w = Some children \<and> MAXIM2C_LINK_ID_MAX c \<le> 32 \<longrightarrow>
      maxim2c_i2c_mux_mask c h w = Some (or_of_bits (enabled_channels c children)))"
proof (intro conjI impI)
  assume "of_find_i2c_mux h w = None"
  then show "maxim2c_i2c_mux_mask c h w = Some 0xFFFFFFEA"
    by (simp add: maxim2c_i2c_mux_mask_def EINVAL_def)
next
  assume "i2c_check_functionality h w \<and> i2c_mux_alloc h w = (Some k, w1) \<and>
    mux_add_adapters h k [0..<MAXIM2C_LINK_ID_MAX c] w1 = (0, w2) \<and> of_find_i2c_mux h w2 = None"
  then show "maxim2c_i2c_mux_init c h w m = Some (0, w2, m\<lparr>muxc := Some k, i2c_mux_mask := 0xFFFFFFEA\<rparr>)"
    by (simp add: maxim2c_i2c_mux_init_def maxim2c_i2c_mux_mask_def EINVAL_def)
next
  assume "of_find_i2c_mux h w = Some children \<and> MAXIM2C_LINK_ID_MAX c \<le> 32"
  then show "maxim2c_i2c_mux_mask c h w = Some (or_of_bits (enabled_channels c children))"
    using mux_mask_children_or [of c children 0] by (simp add: maxim2c_i2c_mux_mask_def)
qed

lemma recorder_add_adapters:
  "mux_add_adapters (recorder dt) 0 [0..<2] [Mux_alloc] = (0, [Mux_alloc, Mux_add 0 0, Mux_add 0 1])"
  by code_simp

theorem mux_mask_without_node_is_EINVAL_witness:
  "maxim2c_i2c_mux_mask example_api (recorder None) [] = Some 0xFFFFFFEA \<and>
   maxim2c_i2c_mux_init example_api (recorder None) []
       \<lparr>muxc = None, i2c_mux_mask = 0, mux_channel = 0, mux_disable = False\<rparr> =
     Some (0, [Mux_alloc, Mux_add 0 0, Mux_add 0 1],
           \<lparr>muxc = Some 0, i2c_mux_mask = 0xFFFFFFEA, mux_channel = 0, mux_disable = False\<rparr>) \<and>
   maxim2c_i2c_mux_mask example_api
       (recorder (Some [\<lparr>of_reg = Some 1, of_available = True\<rparr>, \<lparr>of_reg = Some 0, of_available = False\<rparr>,
                        \<lparr>of_reg = Some 2, of_available = True\<rparr>])) [] = Some 2 \<and>
   maxim2c_i2c_mux_mask example_api
       (recorder (Some [\<lparr>of_reg = Some 1, of_available = True\<rparr>, \<lparr>of_reg = None, of_available = True\<rparr>])) [] =
     Some 3"
  using recorder_add_adapters [of None]
    mux_mask_without_node_is_EINVAL [of "recorder None" "[]"
      "example_api" 0 "[Mux_alloc]"
      "[Mux_alloc, Mux_add 0 0, Mux_add 0 1]"
      "\<lparr>muxc = None, i2c_mux_mask = 0, mux_channel = 0, mux_disable = False\<rparr>"]
    mux_mask_without_node_is_EINVAL [of
      "recorder (Some [\<lparr>of_reg = Some 1, of_available = True\<rparr>, \<lparr>of_reg = Some 0, of_available = False\<rparr>,
                        \<lparr>of_reg = Some 2, of_available = True\<rparr>])" "[]"
      "example_api" _ _ _ _
      "[\<lparr>of_reg = Some 1, of_available = True\<rparr>, \<lparr>of_reg = Some 0, of_available = False\<rparr>,
                        \<lparr>of_reg = Some 2, of_available = True\<rparr>]"]
    mux_mask_without_node_is_EINVAL [of
      "recorder (Some [\<lparr>of_reg = Some 1, of_available = True\<rparr>, \<lparr>of_reg = None, of_available = True\<rparr>])" "[]"
      "example_api" _ _ _ _
      "[\<lparr>of_reg = Some 1, of_available = True\<rparr>, \<lparr>of_reg = None, of_available = True\<rparr>]"]
  by (simp add: recorder_def enabled_channels_def or_of_bits_def child_id_def example_api_def)

subsection \<open>The register list\<close>

lemma write_array_body_described:
  "write_array_body h w r =
     (case entry_operation h w r of
        None \<Rightarrow> None
      | Some (ret, w') \<Rightarrow> Some (ret, entry_delay h w' r))"
  by (simp add: write_array_body_def entry_operation_def entry_delay_def mult.commute
      split: option.splits prod.splits)

lemma write_array_loop_failed:
  "ret \<noteq> 0 \<Longrightarrow> write_array_loop c h regs i ret w = Some (ret, w)"
  by (subst write_array_loop.simps) simp

lemma write_array_loop_refines:
  assumes "\<forall>r \<in> set pre. reg_addr r \<noteq> MAXIM2C_REG_NULL c" "reg_addr t = MAXIM2C_REG_NULL c"
  shows "write_array_loop c h (before @ pre @ t # rest) (length before) 0 w = apply_in_order h w pre"
  using assms(1)
proof (induction pre arbitrary: before w)
  case Nil
  show ?case using assms(2) by (subst write_array_loop.simps) simp
next
  case (Cons r rs)
  let ?regs = "before @ (r # rs) @ t # rest"
  have r: "reg_addr r \<noteq> MAXIM2C_REG_NULL c" using Cons.prems by simp
  have step: "write_array_loop c h ?regs (length before) 0 w =
      (case entry_operation h w r of
         None \<Rightarrow> None
       | Some (ret', w') \<Rightarrow> write_array_loop c h ?regs (Suc (length before)) ret' (entry_delay h w' r))"
    using r by (subst write_array_loop.simps)
      (simp add: write_array_body_described split: option.splits)
  show ?case
  proof (cases "entry_operation h w r")
    case None
    then show ?thesis using step by simp
  next
    case (Some p)
    obtain ret' w' where p: "p = (ret', w')" by (cases p)
    show ?thesis
    proof (cases "ret' = 0")
      case True
      have "write_array_loop c h ((before @ [r]) @ rs @ t # rest) (length (before @ [r])) 0
              (entry_delay h w' r) =
            apply_in_order h (entry_delay h w' r) rs"
        using Cons.prems by (intro Cons.IH) simp
      then show ?thesis using step Some p True by simp
    next
      case False
      then show ?thesis using step Some p by (simp add: write_array_loop_failed)
    qed
  qed
qed

lemma apply_in_order_append:
  "apply_in_order h w a = Some (0, w1) \<Longrightarrow> apply_in_order h w (a @ b) = apply_in_order h w1 b"
proof (induction a arbitrary: w)
  case Nil
  then show ?case by simp
next
  case (Cons x xs)
  then show ?case by (auto split: option.splits prod.splits if_splits)
qed

lemma apply_in_order_origin:
  "apply_in_order h w a = Some (e, w') \<Longrightarrow> e \<noteq> 0 \<Longrightarrow>
   \<exists>b r c' w1 w2. a = b @ r # c' \<and> apply_in_order h w b = Some (0, w1) \<and>
      entry_operation h w1 r = Some (e, w2) \<and> w' = entry_delay h w2 r"
proof (induction a arbitrary: w)
  case Nil
  then show ?case by simp
next
  case (Cons x xs)
  from Cons.prems(1) obtain r0 w0 where op: "entry_operation h w x = Some (r0, w0)"
    by (auto split: option.splits)
  show ?case
  proof (cases "r0 = 0")
    case True
    with Cons.prems(1) op have "apply_in_order h (entry_delay h w0 x) xs = Some (e, w')" by simp
    from Cons.IH [OF this Cons.prems(2)]
    obtain b' r c' w1 w2 where "xs = b' @ r # c'"
      "apply_in_order h (entry_delay h w0 x) b' = Some (0, w1)"
      "entry_operation h w1 r = Some (e, w2)" "w' = entry_delay h w2 r" by blast
    then have "x # xs = (x # b') @ r # c' \<and> apply_in_order h w (x # b') = Some (0, w1) \<and>
        entry_operation h w1 r = Some (e, w2) \<and> w' = entry_delay h w2 r"
      using op True by simp
    then show ?thesis by blast
  next
    case False
    with Cons.prems(1) op have "e = r0" "w' = entry_delay h w0 x" by simp_all
    then have "x # xs = [] @ x # xs \<and> apply_in_order h w [] = Some (0, w) \<and>
        entry_operation h w x = Some (e, w0) \<and> w' = entry_delay h w0 x"
      using op by simp
    then show ?thesis by blast
  qed
qed

text \<open>
  C5. On a list whose first entry with \<open>reg_addr = MAXIM2C_REG_NULL\<close> is \<open>t\<close>,
  \<open>maxim2c_i2c_write_array\<close> applies the entries \<open>pre\<close> before \<open>t\<close> in order, as described.
  An entry \<open>r\<close> that is reached, the entries before it having returned 0, is applied by
  \<open>maxim2c_i2c_update\<close> when its \<open>val_mask\<close> is not 0 and by \<open>maxim2c_i2c_write\<close> when it
  is 0, and then by \<open>usleep_range\<close> when its \<open>delay\<close> is not 0; when its operation returns
  0 the run goes on with the entries after it, and otherwise the run ends there with that
  result, nothing after \<open>r\<close> being applied. A result other than 0 always comes from such an
  entry, so the result is 0 when every operation returns 0.
\<close>

theorem write_array_in_order:
  assumes "\<forall>r \<in> set pre. reg_addr r \<noteq> MAXIM2C_REG_NULL c" and "reg_addr t = MAXIM2C_REG_NULL c"
  shows "maxim2c_i2c_write_array c h w (pre @ t # rest) = apply_in_order h w pre \<and>
    (\<forall>a r b w1. pre = a @ r # b \<and> apply_in_order h w a = Some (0, w1) \<longrightarrow>
        maxim2c_i2c_write_array c h w (pre @ t # rest) =
          (case (if val_mask r \<noteq> 0
                 then maxim2c_i2c_update h w1 (reg_addr r) (reg_len r) (val_len r) (val_mask r) (reg_val r)
                 else maxim2c_i2c_write h w1 (reg_addr r) (reg_len r) (val_len r) (reg_val r)) of
             None \<Rightarrow> None
           | Some (ret, w2) \<Rightarrow>
               (let w3 = (if delay r \<noteq> 0
                          then usleep_range h w2 (unat (delay r) * 1000) (unat (delay r) * 1000 + 100)
                          else w2)
                in if ret \<noteq> 0 then Some (ret, w3) else apply_in_order h w3 b))) \<and>
    (\<forall>e w'. maxim2c_i2c_write_array c h w (pre @ t # rest) = Some (e, w') \<and> e \<noteq> 0 \<longrightarrow>
        (\<exists>a r b w1 w2. pre = a @ r # b \<and> apply_in_order h w a = Some (0, w1) \<and>
            (if val_mask r \<noteq> 0
             then maxim2c_i2c_update h w1 (reg_addr r) (reg_len r) (val_len r) (val_mask r) (reg_val r)
             else maxim2c_i2c_write h w1 (reg_addr r) (reg_len r) (val_len r) (reg_val r)) = Some (e, w2)))"
proof -
  have eq: "maxim2c_i2c_write_array c h w (pre @ t # rest) = apply_in_order h w pre"
    using write_array_loop_refines [OF assms, of h "[]" rest w]
    by (simp add: maxim2c_i2c_write_array_def)
  show ?thesis
  proof (intro conjI allI impI)
    show "maxim2c_i2c_write_array c h w (pre @ t # rest) = apply_in_order h w pre" by (rule eq)
  next
    fix a r b w1
    assume "pre = a @ r # b \<and> apply_in_order h w a = Some (0, w1)"
    then have "apply_in_order h w pre = apply_in_order h w1 (r # b)"
      using apply_in_order_append [of h w a w1 "r # b"] by simp
    then show "maxim2c_i2c_write_array c h w (pre @ t # rest) =
          (case (if val_mask r \<noteq> 0
                 then maxim2c_i2c_update h w1 (reg_addr r) (reg_len r) (val_len r) (val_mask r) (reg_val r)
                 else maxim2c_i2c_write h w1 (reg_addr r) (reg_len r) (val_len r) (reg_val r)) of
             None \<Rightarrow> None
           | Some (ret, w2) \<Rightarrow>
               (let w3 = (if delay r \<noteq> 0
                          then usleep_range h w2 (unat (delay r) * 1000) (unat (delay r) * 1000 + 100)
                          else w2)
                in if ret \<noteq> 0 then Some (ret, w3) else apply_in_order h w3 b))"
      unfolding eq
      by (simp add: entry_operation_def entry_delay_def mult.commute Let_def
          split: option.splits prod.splits)
  next
    fix e w'
    assume "maxim2c_i2c_write_array c h w (pre @ t # rest) = Some (e, w') \<and> e \<noteq> 0"
    then have "apply_in_order h w pre = Some (e, w')" "e \<noteq> 0" unfolding eq by simp_all
    from apply_in_order_origin [OF this]
    show "\<exists>a r b w1 w2. pre = a @ r # b \<and> apply_in_order h w a = Some (0, w1) \<and>
            (if val_mask r \<noteq> 0
             then maxim2c_i2c_update h w1 (reg_addr r) (reg_len r) (val_len r) (val_mask r) (reg_val r)
             else maxim2c_i2c_write h w1 (reg_addr r) (reg_len r) (val_len r) (reg_val r)) = Some (e, w2)"
      by (auto simp: entry_operation_def split: if_splits)
  qed
qed

lemma recorder_apply_in_order:
  "apply_in_order (recorder None) []
     [\<lparr>reg_len = 2, reg_addr = 0x0313, val_len = 1, reg_val = 0x40, val_mask = 0xFF, delay = 10\<rparr>,
      \<lparr>reg_len = 2, reg_addr = 0x0010, val_len = 1, reg_val = 0x21, val_mask = 0, delay = 0\<rparr>] =
   Some (0, [Transfer [0x03, 0x13] 1, Master_send [0x03, 0x13, 0x40], Usleep_range 10000 10100,
             Master_send [0x00, 0x10, 0x21]])"
  by code_simp

lemma recorder_nak_update:
  "maxim2c_i2c_update (recorder_nak None) [] 0x0313 2 1 0xFF 0x40 =
   Some (- 5, [Transfer [0x03, 0x13] 1, Master_send [0x03, 0x13, 0x40]])"
  by code_simp

lemma recorder_nak_usleep_range:
  "usleep_range (recorder_nak dt) w lo hi = w @ [Usleep_range lo hi]"
  by (simp add: recorder_nak_def recorder_def)

theorem write_array_in_order_witness:
  "maxim2c_i2c_write_array example_api (recorder None) []
     ([\<lparr>reg_len = 2, reg_addr = 0x0313, val_len = 1, reg_val = 0x40, val_mask = 0xFF, delay = 10\<rparr>,
       \<lparr>reg_len = 2, reg_addr = 0x0010, val_len = 1, reg_val = 0x21, val_mask = 0, delay = 0\<rparr>] @
      \<lparr>reg_len = 2, reg_addr = 0xFFFF, val_len = 0, reg_val = 0, val_mask = 0, delay = 0\<rparr> #
      [\<lparr>reg_len = 2, reg_addr = 0x0001, val_len = 1, reg_val = 1, val_mask = 0, delay = 0\<rparr>]) =
   Some (0, [Transfer [0x03, 0x13] 1, Master_send [0x03, 0x13, 0x40], Usleep_range 10000 10100,
             Master_send [0x00, 0x10, 0x21]]) \<and>
   maxim2c_i2c_write_array example_api (recorder_nak None) []
     ([\<lparr>reg_len = 2, reg_addr = 0x0313, val_len = 1, reg_val = 0x40, val_mask = 0xFF, delay = 10\<rparr>,
       \<lparr>reg_len = 2, reg_addr = 0x0010, val_len = 1, reg_val = 0x21, val_mask = 0, delay = 0\<rparr>] @
      \<lparr>reg_len = 2, reg_addr = 0xFFFF, val_len = 0, reg_val = 0, val_mask = 0, delay = 0\<rparr> #
      [\<lparr>reg_len = 2, reg_addr = 0x0001, val_len = 1, reg_val = 1, val_mask = 0, delay = 0\<rparr>]) =
   Some (- 5, [Transfer [0x03, 0x13] 1, Master_send [0x03, 0x13, 0x40], Usleep_range 10000 10100])"
proof -
  let ?e1 = "\<lparr>reg_len = 2, reg_addr = 0x0313, val_len = 1, reg_val = 0x40, val_mask = 0xFF, delay = 10\<rparr>"
  let ?e2 = "\<lparr>reg_len = 2, reg_addr = 0x0010, val_len = 1, reg_val = 0x21, val_mask = 0, delay = 0\<rparr>"
  let ?t = "\<lparr>reg_len = 2, reg_addr = 0xFFFF, val_len = 0, reg_val = 0, val_mask = 0, delay = 0\<rparr>"
  let ?rest = "[\<lparr>reg_len = 2, reg_addr = 0x0001, val_len = 1, reg_val = 1, val_mask = 0, delay = 0\<rparr>]"
  have a: "\<forall>r \<in> set [?e1, ?e2]. reg_addr r \<noteq> MAXIM2C_REG_NULL example_api"
    by (simp add: example_api_def)
  have b: "reg_addr ?t = MAXIM2C_REG_NULL example_api"
    by (simp add: example_api_def)
  have ok: "maxim2c_i2c_write_array example_api (recorder None) [] ([?e1, ?e2] @ ?t # ?rest) =
      Some (0, [Transfer [0x03, 0x13] 1, Master_send [0x03, 0x13, 0x40], Usleep_range 10000 10100,
             Master_send [0x00, 0x10, 0x21]])"
    using write_array_in_order [OF a b, of "recorder None" "[]" ?rest]
    by (simp only: recorder_apply_in_order)
  have split: "[?e1, ?e2] = [] @ ?e1 # [?e2] \<and> apply_in_order (recorder_nak None) [] [] = Some (0, [])"
    by simp
  from write_array_in_order [OF a b, of "recorder_nak None" "[]" ?rest]
  have "maxim2c_i2c_write_array example_api (recorder_nak None) [] ([?e1, ?e2] @ ?t # ?rest) =
          (case (if val_mask ?e1 \<noteq> 0
                 then maxim2c_i2c_update (recorder_nak None) [] (reg_addr ?e1) (reg_len ?e1) (val_len ?e1)
                        (val_mask ?e1) (reg_val ?e1)
                 else maxim2c_i2c_write (recorder_nak None) [] (reg_addr ?e1) (reg_len ?e1) (val_len ?e1)
                        (reg_val ?e1)) of
             None \<Rightarrow> None
           | Some (ret, w2) \<Rightarrow>
               (let w3 = (if delay ?e1 \<noteq> 0
                          then usleep_range (recorder_nak None) w2 (unat (delay ?e1) * 1000)
                                 (unat (delay ?e1) * 1000 + 100)
                          else w2)
                in if ret \<noteq> 0 then Some (ret, w3) else apply_in_order (recorder_nak None) w3 [?e2]))"
    using split by blast
  then have nak: "maxim2c_i2c_write_array example_api (recorder_nak None) [] ([?e1, ?e2] @ ?t # ?rest) =
      Some (- 5, [Transfer [0x03, 0x13] 1, Master_send [0x03, 0x13, 0x40], Usleep_range 10000 10100])"
    by (simp add: recorder_nak_update recorder_nak_usleep_range)
  show ?thesis using ok nak by (rule conjI)
qed

text \<open>
  C3. \<open>maxim2c_i2c_parse_init_seq\<close> returns \<open>-EINVAL\<close>, with no call of the host (nothing
  allocated) and \<open>*init_seq\<close> as it was, when \<open>seq_data\<close> or \<open>init_seq\<close> is \<open>NULL\<close>, when one
  of \<open>seq_item_size\<close>, \<open>data_len\<close>, \<open>reg_len\<close>, \<open>val_len\<close> is 0, when \<open>data_len\<close> is not a
  multiple of \<open>seq_item_size\<close> (both as unsigned 32-bit numbers), and when
  \<open>seq_item_size\<close> is not \<open>reg_len + val_len * 2 + 1\<close> in the 32-bit arithmetic of the code.
\<close>

theorem parse_init_seq_rejects:
  "seq_data = None \<or> init_seq = None \<or>
   (\<exists>s. init_seq = Some s \<and>
      (seq_item_size s = 0 \<or> data_len = 0 \<or> seq_reg_len s = 0 \<or> seq_val_len s = 0 \<or>
       \<not> unat (seq_item_size s) dvd unat data_len \<or>
       seq_item_size s \<noteq> seq_reg_len s + seq_val_len s * 2 + 1)) \<Longrightarrow>
   maxim2c_i2c_parse_init_seq c h w seq_data data_len init_seq = Some (- EINVAL, w, init_seq)"
proof -
  have m: "data_len mod x = 0 \<longleftrightarrow> unat x dvd unat data_len" for x :: u32
    by (simp add: word_eq_iff_unsigned [where ?'a = nat] unat_mod_distrib mod_eq_0_iff_dvd)
  assume "seq_data = None \<or> init_seq = None \<or>
   (\<exists>s. init_seq = Some s \<and>
      (seq_item_size s = 0 \<or> data_len = 0 \<or> seq_reg_len s = 0 \<or> seq_val_len s = 0 \<or>
       \<not> unat (seq_item_size s) dvd unat data_len \<or>
       seq_item_size s \<noteq> seq_reg_len s + seq_val_len s * 2 + 1))"
  then show ?thesis
    by (auto simp: maxim2c_i2c_parse_init_seq_def m split: option.splits)
qed

theorem parse_init_seq_rejects_witness:
  "\<not> unat (5 :: u32) dvd unat (7 :: u32) \<and>
   maxim2c_i2c_parse_init_seq example_api (recorder None) []
       (Some [1, 2, 3, 4, 5, 6, 7]) 7
       (Some \<lparr>reg_init_seq = None, reg_seq_size = 0, seq_item_size = 5, seq_reg_len = 2, seq_val_len = 1\<rparr>) =
     Some (- 22, [],
       Some \<lparr>reg_init_seq = None, reg_seq_size = 0, seq_item_size = 5, seq_reg_len = 2, seq_val_len = 1\<rparr>)"
  using parse_init_seq_rejects [of "Some [1, 2, 3, 4, 5, 6, 7]"
      "Some \<lparr>reg_init_seq = None, reg_seq_size = 0, seq_item_size = 5, seq_reg_len = 2, seq_val_len = 1\<rparr>"
      7 "example_api" "recorder None" "[]"]
  by (simp add: EINVAL_def)

subsection \<open>The decoder of the init sequence\<close>

lemma take_Suc_drop:
  "d < length xs \<Longrightarrow> take (Suc n) (drop d xs) = xs ! d # take n (drop (Suc d) xs)"
  by (simp add: Cons_nth_drop_Suc [symmetric])

lemma be_value_simps:
  "be_value [b0] = ucast b0"
  "be_value [b1, b0] = push_bit 8 (ucast b1) OR ucast b0"
  "be_value [b2, b1, b0] = push_bit 16 (ucast b2) OR push_bit 8 (ucast b1) OR ucast b0"
  "be_value [b3, b2, b1, b0] =
     push_bit 24 (ucast b3) OR push_bit 16 (ucast b2) OR push_bit 8 (ucast b1) OR ucast b0"
  by (simp_all add: be_value_def ac_simps)

lemma or_byte_in_range:
  "d8 < length data_buf \<Longrightarrow>
   or_byte data_buf sh (x, d8) = Some (x OR ucast (push_bit sh (ucast (data_buf ! d8) :: u32)), Suc d8)"
  by (simp add: or_byte_def deref_def)

lemma take_drop_bytes:
  "d < length xs \<Longrightarrow> take (Suc 0) (drop d xs) = [xs ! d]"
  "Suc d < length xs \<Longrightarrow> take 2 (drop d xs) = [xs ! d, xs ! Suc d]"
  "Suc (Suc d) < length xs \<Longrightarrow> take 3 (drop d xs) = [xs ! d, xs ! Suc d, xs ! Suc (Suc d)]"
  "Suc (Suc (Suc d)) < length xs \<Longrightarrow>
     take 4 (drop d xs) = [xs ! d, xs ! Suc d, xs ! Suc (Suc d), xs ! Suc (Suc (Suc d))]"
  by (simp_all add: eval_nat_numeral take_Suc_drop)

lemma unat_small:
  "unat (1 :: u32) = 1" "unat (2 :: u32) = 2" "unat (3 :: u32) = 3" "unat (4 :: u32) = 4"
  by simp_all

lemma switch_len_decodes:
  fixes len :: u32
  assumes "len = 1 \<or> len = 2 \<or> len = 3 \<or> len = 4" "d8 + unat len \<le> length data_buf"
  shows "switch_len data_buf len (0, d8) =
           Some (ucast (be_value (take (unat len) (drop d8 data_buf))), d8 + unat len)"
  using assms(1)
proof (elim disjE)
  assume l: "len = 1"
  then have "d8 < length data_buf" using assms(2) by simp
  then show ?thesis
    using l by (simp add: unat_small switch_len_def or_byte_in_range take_drop_bytes be_value_simps)
next
  assume l: "len = 2"
  then have "Suc d8 < length data_buf" using assms(2) by simp
  then show ?thesis
    using l by (simp add: unat_small switch_len_def or_byte_in_range take_drop_bytes be_value_simps
        unsigned_or_eq)
next
  assume l: "len = 3"
  then have "Suc (Suc d8) < length data_buf"
    using assms(2) by simp
  then show ?thesis
    using l by (simp add: unat_small switch_len_def or_byte_in_range take_drop_bytes be_value_simps
        unsigned_or_eq or.assoc)
next
  assume l: "len = 4"
  then have "Suc (Suc (Suc d8)) < length data_buf"
    using assms(2) by simp
  then show ?thesis
    using l by (simp add: unat_small switch_len_def or_byte_in_range take_drop_bytes be_value_simps
        unsigned_or_eq or.assoc)
qed

lemma word_facts:
  fixes isz :: u32
  assumes "0 < sz" "unat isz = sz" "0 < N" "L = N * sz" "L < 2 ^ 31"
  shows "unat (of_nat L :: u32) = L"
    and "(of_nat L :: u32) \<noteq> 0"
    and "(of_nat L :: u32) mod isz = 0"
    and "unat ((of_nat L :: u32) div isz) = N"
    and "unat ((of_nat L :: u32) div isz + 1) = Suc N"
    and "unat (scast (of_nat L :: u32) :: u64) = L"
proof -
  have lt: "L < 2 ^ 32" using assms(5) by simp
  show u: "unat (of_nat L :: u32) = L"
    using lt by (simp add: unat_of_nat)
  have pos: "0 < L" using assms by simp
  show "(of_nat L :: u32) \<noteq> 0"
    using u pos by (metis unat_0 less_numeral_extra(3))
  have "unat ((of_nat L :: u32) mod isz) = unat (of_nat L :: u32) mod unat isz"
    by (rule unat_mod_distrib)
  also have "\<dots> = L mod sz" by (simp only: u assms(2))
  also have "\<dots> = 0" using assms(4) by simp
  finally have "unat ((of_nat L :: u32) mod isz) = 0" .
  then show "(of_nat L :: u32) mod isz = 0"
    by (simp add: unat_eq_0)
  have "unat ((of_nat L :: u32) div isz) = unat (of_nat L :: u32) div unat isz"
    by (rule unat_div_distrib)
  also have "\<dots> = L div sz" by (simp only: u assms(2))
  also have "\<dots> = N" using assms(1,4) by simp
  finally show d: "unat ((of_nat L :: u32) div isz) = N" .
  have "N * 1 \<le> N * sz" using assms(1) by (intro mult_le_mono2) simp
  then have "N \<le> L" using assms(4) by simp
  then have "N < 2 ^ 31" using assms(5) by (rule le_less_trans)
  then show "unat ((of_nat L :: u32) div isz + 1) = Suc N"
    using d by (simp add: unat_word_ariths)
  have s: "sint (of_nat L :: u32) = int L"
    using assms(5) by (simp add: signed_of_nat signed_take_bit_int_eq_self)
  have "L < 2 ^ 64" using assms(5) by simp
  then show "unat (scast (of_nat L :: u32) :: u64) = L"
    by (simp add: scast_eq s unat_of_nat)
qed

lemma item_size_of_lengths:
  fixes rl vl :: u32
  assumes "rl = 1 \<or> rl = 2 \<or> rl = 3 \<or> rl = 4" "vl = 1 \<or> vl = 2 \<or> vl = 3 \<or> vl = 4"
  shows "unat (rl + vl * 2 + 1) = unat rl + unat vl + unat vl + 1"
  using assms by (elim disjE) simp_all

lemma decode_entry_decodes:
  assumes rl: "seq_reg_len s = 1 \<or> seq_reg_len s = 2 \<or> seq_reg_len s = 3 \<or> seq_reg_len s = 4"
    and vl: "seq_val_len s = 1 \<or> seq_val_len s = 2 \<or> seq_val_len s = 3 \<or> seq_val_len s = 4"
    and sz: "sz = unat (seq_reg_len s) + unat (seq_val_len s) + unat (seq_val_len s) + 1"
    and len: "d8 + sz \<le> length data_buf"
  shows "decode_entry s data_buf d8 = Some (described_entry s (take sz (drop d8 data_buf)), d8 + sz)"
proof -
  let ?r = "unat (seq_reg_len s)" and ?v = "unat (seq_val_len s)"
  let ?item = "take sz (drop d8 data_buf)"
  have a: "switch_len data_buf (seq_reg_len s) (0 :: u16, d8) =
      Some (ucast (be_value (take ?r (drop d8 data_buf))), d8 + ?r)"
    using rl len sz by (intro switch_len_decodes) simp_all
  have b: "switch_len data_buf (seq_val_len s) (0 :: u32, d8 + ?r) =
      Some (ucast (be_value (take ?v (drop (d8 + ?r) data_buf))), d8 + ?r + ?v)"
    using vl len sz by (intro switch_len_decodes) simp_all
  have c: "switch_len data_buf (seq_val_len s) (0 :: u32, d8 + ?r + ?v) =
      Some (ucast (be_value (take ?v (drop (d8 + ?r + ?v) data_buf))), d8 + ?r + ?v + ?v)"
    using vl len sz by (intro switch_len_decodes) simp_all
  have d: "deref data_buf (d8 + ?r + ?v + ?v) = Some (data_buf ! (d8 + ?r + ?v + ?v))"
    using len sz by (simp add: deref_def)
  have t1: "take ?r ?item = take ?r (drop d8 data_buf)"
    using sz by (simp add: min_def)
  have t2: "take ?v (drop ?r ?item) = take ?v (drop (d8 + ?r) data_buf)"
    using sz by (simp add: drop_take min_def add.commute)
  have t3: "take ?v (drop (?r + ?v) ?item) = take ?v (drop (d8 + ?r + ?v) data_buf)"
    using sz by (simp add: drop_take min_def add.commute add.left_commute)
  have t4: "?item ! (?r + ?v + ?v) = data_buf ! (d8 + ?r + ?v + ?v)"
    using sz len by (simp add: add.assoc)
  show ?thesis
    unfolding decode_entry_def described_entry_def Let_def t1 t2 t3 t4
    by (simp add: a b c d sz)
qed

lemma decode_loop_decodes:
  assumes rl: "seq_reg_len s = 1 \<or> seq_reg_len s = 2 \<or> seq_reg_len s = 3 \<or> seq_reg_len s = 4"
    and vl: "seq_val_len s = 1 \<or> seq_val_len s = 2 \<or> seq_val_len s = 3 \<or> seq_val_len s = 4"
    and sz: "unat (seq_item_size s) = unat (seq_reg_len s) + unat (seq_val_len s) + unat (seq_val_len s) + 1"
    and len: "n * unat (seq_item_size s) \<le> length data_buf"
  shows "i \<le> n \<Longrightarrow> n < length seq \<Longrightarrow>
     decode_loop s data_buf n i (i * unat (seq_item_size s)) seq =
       Some (take i seq @ map (\<lambda>j. described_entry s (seq_item s data_buf j)) [i..<n] @ drop n seq)"
proof (induction "n - i" arbitrary: i seq)
  case 0
  then have "i = n" by simp
  then show ?case by (subst decode_loop.simps) simp
next
  case (Suc k)
  let ?sz = "unat (seq_item_size s)"
  let ?e = "described_entry s (seq_item s data_buf i)"
  have i: "i < n" using Suc.hyps(2) by simp
  then have "Suc i * ?sz \<le> n * ?sz" by (intro mult_le_mono1) simp
  then have fit: "i * ?sz + ?sz \<le> length data_buf" using len by simp
  have e: "decode_entry s data_buf (i * ?sz) = Some (?e, i * ?sz + ?sz)"
    using decode_entry_decodes [OF rl vl sz fit] by (simp add: seq_item_def)
  have "decode_loop s data_buf n i (i * ?sz) seq =
        decode_loop s data_buf n (Suc i) (Suc i * ?sz) (seq[i := ?e])"
    using i Suc.prems e by (subst decode_loop.simps) (simp add: add.commute)
  also have "\<dots> = Some (take (Suc i) (seq[i := ?e]) @
        map (\<lambda>j. described_entry s (seq_item s data_buf j)) [Suc i..<n] @ drop n (seq[i := ?e]))"
    using Suc.hyps(2) i Suc.prems by (intro Suc.hyps(1)) simp_all
  also have "take (Suc i) (seq[i := ?e]) = take i seq @ [?e]"
    using i Suc.prems by (simp add: take_Suc_conv_app_nth)
  also have "drop n (seq[i := ?e]) = drop n seq"
    using i by simp
  finally show ?case
    using i by (simp add: upt_conv_Cons)
qed

lemma described_entry_long_address:
  "described_entry
       \<lparr>reg_init_seq = None, reg_seq_size = 0, seq_item_size = 8, seq_reg_len = 5, seq_val_len = 1\<rparr>
       (seq_item \<lparr>reg_init_seq = None, reg_seq_size = 0, seq_item_size = 8, seq_reg_len = 5, seq_val_len = 1\<rparr>
          [1, 2, 3, 4, 5, 6, 7, 8] 0) =
     \<lparr>reg_len = 5, reg_addr = 0x0405, val_len = 1, reg_val = 6, val_mask = 7, delay = 8\<rparr>"
  by code_simp

lemma parse_init_seq_long_address:
  "maxim2c_i2c_parse_init_seq example_api (recorder None) []
       (Some [1, 2, 3, 4, 5, 6, 7, 8]) 8
       (Some \<lparr>reg_init_seq = None, reg_seq_size = 0, seq_item_size = 8, seq_reg_len = 5, seq_val_len = 1\<rparr>) =
     Some (0, [Kmemdup 8, Kcalloc 2],
       Some \<lparr>reg_init_seq = Some
               [\<lparr>reg_len = 5, reg_addr = 0, val_len = 1, reg_val = 1, val_mask = 2, delay = 3\<rparr>,
                \<lparr>reg_len = 5, reg_addr = 0xFFFF, val_len = 0, reg_val = 0, val_mask = 0, delay = 0\<rparr>],
             reg_seq_size = 2, seq_item_size = 8, seq_reg_len = 5, seq_val_len = 1\<rparr>)"
  by code_simp

lemma parse_init_seq_24bit_address:
  "maxim2c_i2c_parse_init_seq example_api (recorder None) []
       (Some [0x01, 0x02, 0x03, 0x40, 0xFF, 0x0A]) 6
       (Some \<lparr>reg_init_seq = None, reg_seq_size = 0, seq_item_size = 6, seq_reg_len = 3, seq_val_len = 1\<rparr>) =
     Some (0, [Kmemdup 6, Kcalloc 2],
       Some \<lparr>reg_init_seq = Some
               [\<lparr>reg_len = 3, reg_addr = 0x0203, val_len = 1, reg_val = 0x40, val_mask = 0xFF, delay = 10\<rparr>,
                \<lparr>reg_len = 3, reg_addr = 0xFFFF, val_len = 0, reg_val = 0, val_mask = 0, delay = 0\<rparr>],
             reg_seq_size = 2, seq_item_size = 6, seq_reg_len = 3, seq_val_len = 1\<rparr>)"
  by code_simp

lemma be_value_24bit_address: "be_value [0x01, 0x02, 0x03] = 0x010203"
  by code_simp

text \<open>
  C4, where it fails. The sizes that the checks let through are not all between 1 and 4.
  With \<open>reg_len = 5\<close>, \<open>val_len = 1\<close> and \<open>seq_item_size = 8\<close> no case of the first
  \<open>switch\<close> applies, the five address bytes are not consumed, and the entry is decoded from
  the first three bytes of the item: it is not the entry that the item describes. And
  with \<open>reg_len = 3\<close> the address bytes \<open>01 02 03\<close> spell \<open>0x010203\<close>, of which the 16-bit
  \<open>reg_addr\<close> of the entry keeps \<open>0x0203\<close>.
\<close>

theorem parse_init_seq_unchecked_length_counterexample:
  "maxim2c_i2c_parse_init_seq example_api (recorder None) []
       (Some [1, 2, 3, 4, 5, 6, 7, 8]) 8
       (Some \<lparr>reg_init_seq = None, reg_seq_size = 0, seq_item_size = 8, seq_reg_len = 5, seq_val_len = 1\<rparr>) =
     Some (0, [Kmemdup 8, Kcalloc 2],
       Some \<lparr>reg_init_seq = Some
               [\<lparr>reg_len = 5, reg_addr = 0, val_len = 1, reg_val = 1, val_mask = 2, delay = 3\<rparr>,
                \<lparr>reg_len = 5, reg_addr = 0xFFFF, val_len = 0, reg_val = 0, val_mask = 0, delay = 0\<rparr>],
             reg_seq_size = 2, seq_item_size = 8, seq_reg_len = 5, seq_val_len = 1\<rparr>) \<and>
   \<lparr>reg_len = 5, reg_addr = 0, val_len = 1, reg_val = 1, val_mask = 2, delay = 3\<rparr> \<noteq>
     described_entry
       \<lparr>reg_init_seq = None, reg_seq_size = 0, seq_item_size = 8, seq_reg_len = 5, seq_val_len = 1\<rparr>
       (seq_item \<lparr>reg_init_seq = None, reg_seq_size = 0, seq_item_size = 8, seq_reg_len = 5, seq_val_len = 1\<rparr>
          [1, 2, 3, 4, 5, 6, 7, 8] 0) \<and>
   maxim2c_i2c_parse_init_seq example_api (recorder None) []
       (Some [0x01, 0x02, 0x03, 0x40, 0xFF, 0x0A]) 6
       (Some \<lparr>reg_init_seq = None, reg_seq_size = 0, seq_item_size = 6, seq_reg_len = 3, seq_val_len = 1\<rparr>) =
     Some (0, [Kmemdup 6, Kcalloc 2],
       Some \<lparr>reg_init_seq = Some
               [\<lparr>reg_len = 3, reg_addr = 0x0203, val_len = 1, reg_val = 0x40, val_mask = 0xFF, delay = 10\<rparr>,
                \<lparr>reg_len = 3, reg_addr = 0xFFFF, val_len = 0, reg_val = 0, val_mask = 0, delay = 0\<rparr>],
             reg_seq_size = 2, seq_item_size = 6, seq_reg_len = 3, seq_val_len = 1\<rparr>) \<and>
   be_value [0x01, 0x02, 0x03] = 0x010203"
  by (simp only: parse_init_seq_long_address described_entry_long_address
      parse_init_seq_24bit_address be_value_24bit_address) simp

text \<open>
  C4, as the code has it. With \<open>reg_len\<close> and \<open>val_len\<close> between 1 and 4,
  \<open>seq_item_size = reg_len + val_len * 2 + 1\<close> and \<open>N > 0\<close> items of that size as the data,
  when both allocations succeed \<open>maxim2c_i2c_parse_init_seq\<close> returns 0 and leaves
  \<open>reg_seq_size = N + 1\<close> and \<open>N + 1\<close> entries: entry \<open>i < N\<close> is the one that item \<open>i\<close>
  describes (its \<open>reg_addr\<close> being the low 16 bits of the big-endian address, which is
  the whole address when \<open>reg_len\<close> is 1 or 2), and the last entry has
  \<open>reg_addr = MAXIM2C_REG_NULL\<close>, the \<open>reg_len\<close> of the header and 0 elsewhere.
\<close>

theorem parse_init_seq_decodes:
  assumes rl: "seq_reg_len s = 1 \<or> seq_reg_len s = 2 \<or> seq_reg_len s = 3 \<or> seq_reg_len s = 4"
    and vl: "seq_val_len s = 1 \<or> seq_val_len s = 2 \<or> seq_val_len s = 3 \<or> seq_val_len s = 4"
    and item: "seq_item_size s = seq_reg_len s + seq_val_len s * 2 + 1"
    and data: "0 < N" "length data = N * unat (seq_item_size s)" "length data < 2 ^ 31"
    and kmemdup: "devm_kmemdup h w (length data) = (True, w1)"
    and kcalloc: "devm_kcalloc h w1 (Suc N) = (True, w2)"
  shows "maxim2c_i2c_parse_init_seq c h w (Some data) (of_nat (length data)) (Some s) =
     Some (0, w2,
       Some (s\<lparr>reg_seq_size := of_nat (Suc N),
               reg_init_seq :=
                 Some (map (\<lambda>i. described_entry s (seq_item s data i)) [0..<N] @ [end_entry c s])\<rparr>))"
proof -
  let ?isz = "seq_item_size s"
  let ?dl = "of_nat (length data) :: u32"
  let ?entries = "map (\<lambda>i. described_entry s (seq_item s data i)) [0..<N]"
  define R where "R = ?dl div ?isz + 1"
  let ?s1 = "s\<lparr>reg_seq_size := R\<rparr>"
  have sz: "unat ?isz = unat (seq_reg_len s) + unat (seq_val_len s) + unat (seq_val_len s) + 1"
    unfolding item using rl vl by (rule item_size_of_lengths)
  then have pos: "0 < unat ?isz" by simp
  note wf = word_facts [OF pos refl data(1) data(2) data(3)]
  have nz: "?isz \<noteq> 0" "seq_reg_len s \<noteq> 0" "seq_val_len s \<noteq> 0"
    using pos rl vl by auto
  have uR: "unat R = Suc N"
    unfolding R_def by (rule wf(5))
  have bR: "unat (R - 1) = N"
    unfolding R_def using wf(4) by simp
  have "R = of_nat (unat R)" by simp
  then have size: "R = of_nat (Suc N)" by (simp only: uR)
  have same: "described_entry ?s1 = described_entry s" "seq_item ?s1 = seq_item s"
    by (simp_all add: described_entry_def seq_item_def fun_eq_iff)
  have "decode_loop ?s1 data N 0 (0 * unat (seq_item_size ?s1)) (replicate (Suc N) zero_regval) =
        Some (take 0 (replicate (Suc N) zero_regval) @
              map (\<lambda>j. described_entry ?s1 (seq_item ?s1 data j)) [0..<N] @
              drop N (replicate (Suc N) zero_regval))"
    using rl vl sz data(2) by (intro decode_loop_decodes) simp_all
  moreover have "drop N (replicate (Suc N) zero_regval) = [zero_regval]"
    by (simp only: drop_replicate) simp
  ultimately have loop: "decode_loop ?s1 data N 0 0 (replicate (Suc N) zero_regval) =
        Some (?entries @ [zero_regval])"
    by (simp only: same take_0 append_Nil mult_0)
  have last: "(?entries @ [zero_regval])[N := ((?entries @ [zero_regval]) ! N)
                \<lparr>reg_len := ucast (seq_reg_len s), reg_addr := MAXIM2C_REG_NULL c\<rparr>] =
              ?entries @ [end_entry c s]"
    by (simp add: list_update_append nth_append end_entry_def)
  have chk: "(?isz \<noteq> seq_reg_len s + seq_val_len s * 2 + 1) = False"
    using item by simp
  have "maxim2c_i2c_parse_init_seq c h w (Some data) ?dl (Some s) =
     Some (0, w2, Some (s\<lparr>reg_seq_size := R, reg_init_seq := Some (?entries @ [end_entry c s])\<rparr>))"
    unfolding maxim2c_i2c_parse_init_seq_def
    using nz wf(2) wf(3) kmemdup kcalloc
    by (simp add: chk wf(6) R_def [symmetric] uR bR loop last Let_def del: replicate_Suc)
  then show ?thesis by (simp only: size)
qed

lemma recorder_described_entries:
  "map (\<lambda>i. described_entry
              \<lparr>reg_init_seq = None, reg_seq_size = 0, seq_item_size = 5, seq_reg_len = 2, seq_val_len = 1\<rparr>
              (seq_item \<lparr>reg_init_seq = None, reg_seq_size = 0, seq_item_size = 5, seq_reg_len = 2, seq_val_len = 1\<rparr>
                 [0x03, 0x13, 0x40, 0xFF, 0x0A, 0x00, 0x10, 0x21, 0x00, 0x00] i)) [0..<2] @
   [end_entry example_api
      \<lparr>reg_init_seq = None, reg_seq_size = 0, seq_item_size = 5, seq_reg_len = 2, seq_val_len = 1\<rparr>] =
   [\<lparr>reg_len = 2, reg_addr = 0x0313, val_len = 1, reg_val = 0x40, val_mask = 0xFF, delay = 10\<rparr>,
    \<lparr>reg_len = 2, reg_addr = 0x0010, val_len = 1, reg_val = 0x21, val_mask = 0, delay = 0\<rparr>,
    \<lparr>reg_len = 2, reg_addr = 0xFFFF, val_len = 0, reg_val = 0, val_mask = 0, delay = 0\<rparr>]"
  by code_simp

theorem parse_init_seq_decodes_witness:
  "maxim2c_i2c_parse_init_seq example_api (recorder None) []
       (Some [0x03, 0x13, 0x40, 0xFF, 0x0A, 0x00, 0x10, 0x21, 0x00, 0x00]) 10
       (Some \<lparr>reg_init_seq = None, reg_seq_size = 0, seq_item_size = 5, seq_reg_len = 2, seq_val_len = 1\<rparr>) =
     Some (0, [Kmemdup 10, Kcalloc 3],
       Some \<lparr>reg_init_seq = Some
               [\<lparr>reg_len = 2, reg_addr = 0x0313, val_len = 1, reg_val = 0x40, val_mask = 0xFF, delay = 10\<rparr>,
                \<lparr>reg_len = 2, reg_addr = 0x0010, val_len = 1, reg_val = 0x21, val_mask = 0, delay = 0\<rparr>,
                \<lparr>reg_len = 2, reg_addr = 0xFFFF, val_len = 0, reg_val = 0, val_mask = 0, delay = 0\<rparr>],
             reg_seq_size = 3, seq_item_size = 5, seq_reg_len = 2, seq_val_len = 1\<rparr>)"
  using parse_init_seq_decodes [of
      "\<lparr>reg_init_seq = None, reg_seq_size = 0, seq_item_size = 5, seq_reg_len = 2, seq_val_len = 1\<rparr>"
      2 "[0x03, 0x13, 0x40, 0xFF, 0x0A, 0x00, 0x10, 0x21, 0x00, 0x00]" "recorder None" "[]"
      "[Kmemdup 10]" "[Kmemdup 10, Kcalloc 3]" "example_api"]
  by (simp add: recorder_def recorder_described_entries)

end
